theory Spec2Isabelle
  imports Complex_Main
begin

section \<open>Exceptions\<close>

text \<open>
  The exceptions a call can end with. \<open>ValueError\<close> and \<open>LinAlgError\<close> are what numpy
  raises (shape mismatch in \<open>@\<close>, \<open>+\<close>, \<open>-\<close>; a non-square argument of
  \<open>numpy.linalg.inv\<close>, or one it finds singular). \<open>TypeError\<close> is what Python raises for
  a call whose arguments do not fit the signature. \<open>ConfigurationError\<close>,
  \<open>IncompatibleDimensionsError\<close> and \<open>SingularMatrixError\<close> are the names of the
  specification's taxonomy; no statement of the sources raises them.
\<close>

datatype error =
    ValueError
  | LinAlgError
  | TypeError
  | ConfigurationError
  | IncompatibleDimensionsError
  | SingularMatrixError

definition bindE :: "error + 'a \<Rightarrow> ('a \<Rightarrow> error + 'b) \<Rightarrow> error + 'b" where
  "bindE m f = (case m of Inl e \<Rightarrow> Inl e | Inr x \<Rightarrow> f x)"

section \<open>Two-dimensional numpy arrays over exact arithmetic\<close>

text \<open>
  A two-dimensional array is the list of its rows; entries are real numbers, so every
  operation is the exact-arithmetic reading of the floating-point one.
\<close>

type_synonym ndarray = "real list list"

definition nrows :: "ndarray \<Rightarrow> nat" where
  "nrows A = length A"

definition ncols :: "ndarray \<Rightarrow> nat" where
  "ncols A = (case A of [] \<Rightarrow> 0 | r # _ \<Rightarrow> length r)"

definition shape :: "ndarray \<Rightarrow> nat \<times> nat" where
  "shape A = (nrows A, ncols A)"

definition has_shape :: "ndarray \<Rightarrow> nat \<Rightarrow> nat \<Rightarrow> bool" where
  "has_shape A n m = (length A = n \<and> ncols A = m \<and> list_all (\<lambda>r. length r = m) A)"

definition np_zeros :: "nat \<Rightarrow> nat \<Rightarrow> ndarray" where
  "np_zeros n m = replicate n (replicate m 0)"

definition np_ones :: "nat \<Rightarrow> nat \<Rightarrow> ndarray" where
  "np_ones n m = replicate n (replicate m 1)"

definition np_identity :: "nat \<Rightarrow> ndarray" where
  "np_identity n = map (\<lambda>i. map (\<lambda>j. if i = j then 1 else 0) [0..<n]) [0..<n]"

definition np_transpose :: "ndarray \<Rightarrow> ndarray" where
  "np_transpose A = map (\<lambda>j. map (\<lambda>r. r ! j) A) [0..<ncols A]"

definition dot :: "real list \<Rightarrow> real list \<Rightarrow> real" where
  "dot u v = sum_list (map2 (*) u v)"

definition column :: "ndarray \<Rightarrow> nat \<Rightarrow> real list" where
  "column B j = map (\<lambda>r. r ! j) B"

definition mat_mul :: "ndarray \<Rightarrow> ndarray \<Rightarrow> ndarray" where
  "mat_mul A B = map (\<lambda>r. map (\<lambda>j. dot r (column B j)) [0..<ncols B]) A"

text \<open>\<open>A @ B\<close>: numpy raises \<open>ValueError\<close> when the inner dimensions differ.\<close>

definition np_matmul :: "ndarray \<Rightarrow> ndarray \<Rightarrow> error + ndarray" where
  "np_matmul A B = (if ncols A \<noteq> nrows B then Inl ValueError else Inr (mat_mul A B))"

text \<open>
  \<open>A + B\<close> and \<open>A - B\<close> broadcast: along each axis the two lengths are equal or one of
  them is 1; otherwise numpy raises \<open>ValueError\<close>.
\<close>

definition broadcastable :: "nat \<times> nat \<Rightarrow> nat \<times> nat \<Rightarrow> bool" where
  "broadcastable s t =
     ((fst s = fst t \<or> fst s = 1 \<or> fst t = 1) \<and> (snd s = snd t \<or> snd s = 1 \<or> snd t = 1))"

definition bdim :: "nat \<Rightarrow> nat \<Rightarrow> nat" where
  "bdim a b = (if a = 1 then b else a)"

definition broadcast_to :: "ndarray \<Rightarrow> nat \<Rightarrow> nat \<Rightarrow> ndarray" where
  "broadcast_to A n m =
     map (\<lambda>i. map (\<lambda>j. A ! (if nrows A = 1 then 0 else i) ! (if ncols A = 1 then 0 else j))
                [0..<m]) [0..<n]"

definition mat_binop :: "(real \<Rightarrow> real \<Rightarrow> real) \<Rightarrow> ndarray \<Rightarrow> ndarray \<Rightarrow> ndarray" where
  "mat_binop f A B =
     (let n = bdim (nrows A) (nrows B); m = bdim (ncols A) (ncols B)
      in map2 (map2 f) (broadcast_to A n m) (broadcast_to B n m))"

definition np_binop :: "(real \<Rightarrow> real \<Rightarrow> real) \<Rightarrow> ndarray \<Rightarrow> ndarray \<Rightarrow> error + ndarray" where
  "np_binop f A B =
     (if \<not> broadcastable (shape A) (shape B) then Inl ValueError else Inr (mat_binop f A B))"

definition mat_add :: "ndarray \<Rightarrow> ndarray \<Rightarrow> ndarray" where
  "mat_add A B = mat_binop (+) A B"

definition mat_sub :: "ndarray \<Rightarrow> ndarray \<Rightarrow> ndarray" where
  "mat_sub A B = mat_binop (-) A B"

definition np_add :: "ndarray \<Rightarrow> ndarray \<Rightarrow> error + ndarray" where
  "np_add A B = np_binop (+) A B"

definition np_sub :: "ndarray \<Rightarrow> ndarray \<Rightarrow> error + ndarray" where
  "np_sub A B = np_binop (-) A B"

subsection \<open>\<open>numpy.linalg.inv\<close>\<close>

definition dropnth :: "nat \<Rightarrow> 'a list \<Rightarrow> 'a list" where
  "dropnth j r = take j r @ drop (Suc j) r"

function det :: "ndarray \<Rightarrow> real" where
  "det [] = 1"
| "det (r # rs) =
     sum_list (map (\<lambda>j. (- 1) ^ j * r ! j * det (map (dropnth j) rs)) [0..<length r])"
  by pat_completeness auto
termination
  by (relation "measure length") auto

definition minor :: "ndarray \<Rightarrow> nat \<Rightarrow> nat \<Rightarrow> ndarray" where
  "minor A i j = map (dropnth j) (dropnth i A)"

definition adjugate :: "ndarray \<Rightarrow> ndarray" where
  "adjugate A =
     map (\<lambda>i. map (\<lambda>j. (- 1) ^ (i + j) * det (minor A j i)) [0..<length A]) [0..<length A]"

definition square :: "ndarray \<Rightarrow> bool" where
  "square A = list_all (\<lambda>r. length r = length A) A"

text \<open>
  \<open>inv\<close> (here \<open>linalg_inv\<close>) raises \<open>LinAlgError\<close> for an array that is not square,
  and when the elimination it runs meets a pivot that is zero. Over exact arithmetic
  that is the case for the singular arrays and for no other, and what is returned
  otherwise is the inverse, here the adjugate divided by the determinant. Over
  floating-point numbers rounding can leave a small non-zero pivot where the exact one is
  zero, so that a singular array is inverted without an error; this reading of \<open>inv\<close>
  therefore says nothing about which singular arrays the floating-point routine reports.
\<close>

definition mat_inv :: "ndarray \<Rightarrow> ndarray" where
  "mat_inv A = map (map (\<lambda>x. x / det A)) (adjugate A)"

definition linalg_inv :: "ndarray \<Rightarrow> error + ndarray" where
  "linalg_inv A =
     (if \<not> square A then Inl LinAlgError
      else if det A = 0 then Inl LinAlgError
      else Inr (mat_inv A))"

section \<open>Estimates and models\<close>

text \<open>
  A prior is an instance of one of the three information-form classes the predictor tests
  for, or of a covariance-form class (\<open>GaussianState\<close> stands for every class exposing
  \<open>covar\<close>). Timestamps are instants counted in microseconds; the difference of two is
  a \<open>timedelta\<close>.
\<close>

datatype estimate =
    InformationState (state_vector: ndarray) (info_matrix: ndarray) (timestamp: "int option")
  | InformationStatePrediction (state_vector: ndarray) (info_matrix: ndarray)
      (timestamp: "int option")
  | InformationStateUpdate (state_vector: ndarray) (info_matrix: ndarray)
      (timestamp: "int option")
  | GaussianState (state_vector: ndarray) (covar: ndarray) (timestamp: "int option")

text \<open>
  The transition model is an external collaborator: \<open>tm_matrix\<close> and \<open>tm_covar\<close> are
  its methods \<open>matrix\<close> and \<open>covar\<close>, called with the keyword arguments \<open>prior\<close> (when
  given), \<open>time_interval\<close> and the caller's \<open>**kwargs\<close>.
\<close>

record 'kw transition_model =
  ndim_state :: nat
  tm_matrix :: "estimate option \<Rightarrow> int option \<Rightarrow> 'kw \<Rightarrow> ndarray"
  tm_covar :: "int option \<Rightarrow> 'kw \<Rightarrow> ndarray"

definition ndim :: "'kw transition_model \<Rightarrow> nat" where
  \<comment> \<open>Modelled from the spec: the model class is not among the sources; the only
      dimensionality a transition model declares is \<open>ndim_state\<close>.\<close>
  "ndim tm = ndim_state tm"

text \<open>
  \<open>LinearControlModel(ndim_state, mapping, control_vector, control_matrix, control_noise)\<close>
  keeps its constructor arguments.
\<close>

record control_model =
  cm_ndim_state :: nat
  mapping :: "nat list"
  control_vector :: ndarray
  control_matrix :: ndarray
  control_noise :: ndarray

definition LinearControlModel ::
  "nat \<Rightarrow> nat list \<Rightarrow> ndarray \<Rightarrow> ndarray \<Rightarrow> ndarray \<Rightarrow> control_model" where
  "LinearControlModel n mp u B Qc =
     \<lparr>cm_ndim_state = n, mapping = mp, control_vector = u, control_matrix = B,
      control_noise = Qc\<rparr>"

definition cm_matrix :: "control_model \<Rightarrow> ndarray" where
  \<comment> \<open>Modelled from the spec: the control model class is not among the sources;
      \<open>matrix()\<close> supplies the control matrix \<open>B\<close>.\<close>
  "cm_matrix cm = control_matrix cm"

definition control_input :: "control_model \<Rightarrow> ndarray" where
  \<comment> \<open>Modelled from the spec: the control model class is not among the sources;
      \<open>control_input()\<close> supplies the control input vector, the zero vector for the
      zero-effect model.\<close>
  "control_input cm = control_vector cm"

record 'kw predictor =
  transition_model :: "'kw transition_model"
  control_model :: control_model

section \<open>The predictor\<close>

text \<open>
  \<open>__init__\<close> first runs the base constructor, which takes the declared properties
  from the arguments, the required \<open>transition_model\<close> and the optional
  \<open>control_model\<close>. The base classes are not among the sources.
\<close>

definition Base_init ::
  "'kw transition_model option \<Rightarrow> control_model option
     \<Rightarrow> error + ('kw transition_model \<times> control_model option)" where
  \<comment> \<open>Modelled from the spec: the base constructor (\<open>super().__init__\<close>, line 53) is not
      among the sources; construction "fails with a \<open>ConfigurationError\<close> if no transition
      model is supplied" and otherwise keeps the arguments.\<close>
  "Base_init tm cm = (case tm of None \<Rightarrow> Inl ConfigurationError | Some t \<Rightarrow> Inr (t, cm))"

text \<open>Lines 52 to 62: without a control model a zero-effect one is inserted.\<close>

definition InfoFilterPredictor_init ::
  "'kw transition_model option \<Rightarrow> control_model option \<Rightarrow> error + 'kw predictor" where
  "InfoFilterPredictor_init tm_arg cm_arg =
     bindE (Base_init tm_arg cm_arg) (\<lambda>(tm, cm).
       case cm of
         None \<Rightarrow>
           (let ndims = ndim_state tm
            in Inr \<lparr>transition_model = tm,
                    control_model = LinearControlModel ndims [] (np_zeros ndims 1)
                                      (np_zeros ndims ndims) (np_zeros ndims ndims)\<rparr>)
       | Some c \<Rightarrow> Inr \<lparr>transition_model = tm, control_model = c\<rparr>)"

definition noise_transition_matrix :: "'kw predictor \<Rightarrow> ndarray" where
  "noise_transition_matrix P = np_identity (ndim_state (transition_model P))"

definition transition_matrix ::
  "'kw predictor \<Rightarrow> estimate option \<Rightarrow> int option \<Rightarrow> 'kw \<Rightarrow> ndarray" where
  "transition_matrix P pr dt kw = tm_matrix (transition_model P) pr dt kw"

definition transition_function ::
  "'kw predictor \<Rightarrow> estimate \<Rightarrow> int option \<Rightarrow> 'kw \<Rightarrow> error + ndarray" where
  "transition_function P prior dt kw =
     np_matmul (tm_matrix (transition_model P) None dt kw) (state_vector prior)"

definition predict_over_interval :: "estimate \<Rightarrow> int option \<Rightarrow> int option" where
  "predict_over_interval prior ts =
     (case ts of
        None \<Rightarrow> None
      | Some t \<Rightarrow> (case timestamp prior of None \<Rightarrow> None | Some t0 \<Rightarrow> Some (t - t0)))"

definition is_information :: "estimate \<Rightarrow> bool" where
  "is_information prior =
     (case prior of
        InformationStateUpdate _ _ _ \<Rightarrow> True
      | InformationStatePrediction _ _ _ \<Rightarrow> True
      | InformationState _ _ _ \<Rightarrow> True
      | GaussianState _ _ _ \<Rightarrow> False)"

text \<open>Lines 199 to 206: the covariance-form prediction, computed and not used.\<close>

definition p_pred :: "ndarray \<Rightarrow> ndarray \<Rightarrow> ndarray \<Rightarrow> ndarray \<Rightarrow> ndarray \<Rightarrow> error + ndarray" where
  "p_pred F X Q B Qc =
     bindE (np_matmul F X) (\<lambda>a.
     bindE (np_matmul a (np_transpose F)) (\<lambda>b.
     bindE (np_add b Q) (\<lambda>c.
     bindE (np_matmul B Qc) (\<lambda>d.
     bindE (np_matmul d (np_transpose B)) (\<lambda>e.
     np_add c e)))))"

text \<open>Lines 213 to 216: the matrix the recursion starts from.\<close>

definition second_moment :: "estimate \<Rightarrow> ndarray" where
  "second_moment prior = (if is_information prior then info_matrix prior else covar prior)"

text \<open>Line 218.\<close>

definition compute_M :: "ndarray \<Rightarrow> ndarray \<Rightarrow> error + ndarray" where
  "compute_M F Y =
     bindE (linalg_inv (np_transpose F)) (\<lambda>a.
     bindE (np_matmul a Y) (\<lambda>b.
     bindE (linalg_inv F) (\<lambda>c.
     np_matmul b c)))"

text \<open>Line 220.\<close>

definition compute_Sigma :: "ndarray \<Rightarrow> ndarray \<Rightarrow> ndarray \<Rightarrow> error + ndarray" where
  "compute_Sigma G M Q =
     bindE (np_matmul G M) (\<lambda>a.
     bindE (np_matmul a G) (\<lambda>b.
     bindE (linalg_inv Q) (\<lambda>c.
     np_add b c)))"

text \<open>Line 222.\<close>

definition compute_Omega :: "ndarray \<Rightarrow> ndarray \<Rightarrow> ndarray \<Rightarrow> error + ndarray" where
  "compute_Omega M G Sgm =
     bindE (np_matmul M G) (\<lambda>a.
     bindE (linalg_inv Sgm) (\<lambda>b.
     np_matmul a b))"

text \<open>Line 224.\<close>

definition compute_Y_pred :: "ndarray \<Rightarrow> ndarray \<Rightarrow> ndarray \<Rightarrow> error + ndarray" where
  "compute_Y_pred M Omega Sgm =
     bindE (np_matmul Omega Sgm) (\<lambda>a.
     bindE (np_matmul a (np_transpose Omega)) (\<lambda>b.
     np_sub M b))"

text \<open>Lines 229 and 230.\<close>

definition compute_y_pred ::
  "nat \<Rightarrow> ndarray \<Rightarrow> ndarray \<Rightarrow> ndarray \<Rightarrow> ndarray \<Rightarrow> ndarray \<Rightarrow> ndarray \<Rightarrow> error + ndarray" where
  "compute_y_pred ndims Omega G F y Y u =
     bindE (np_matmul Omega (np_transpose G)) (\<lambda>a.
     bindE (np_sub (np_ones ndims ndims) a) (\<lambda>b.
     bindE (linalg_inv (np_transpose F)) (\<lambda>c.
     bindE (np_matmul b c) (\<lambda>d.
     bindE (np_matmul d y) (\<lambda>e.
     bindE (np_matmul Y u) (\<lambda>f.
     np_add e f))))))"

text \<open>Lines 182 to 184: the predicted mean, computed and not used.\<close>

definition x_pred_of ::
  "'kw predictor \<Rightarrow> estimate \<Rightarrow> int option \<Rightarrow> 'kw \<Rightarrow> error + ndarray" where
  "x_pred_of P prior dt kw =
     bindE (transition_function P prior dt kw) (\<lambda>fx.
     np_add fx (control_input (control_model P)))"

text \<open>
  The body of \<open>predict\<close>, statement by statement: the value it returns or the exception
  it raises. What \<open>print(prior)\<close> writes and what the decorator caches are modelled
  further down, over a store; neither changes the value computed here.
\<close>

definition predict ::
  "'kw predictor \<Rightarrow> estimate \<Rightarrow> int option \<Rightarrow> 'kw \<Rightarrow> error + estimate" where
  "predict P prior ts kw =
     (let dt = predict_over_interval prior ts;
          cm = control_model P;
          tm = transition_model P
      in bindE (x_pred_of P prior dt kw) (\<lambda>x_pred.
         let F = transition_matrix P (Some prior) dt kw;
             Q = tm_covar tm dt kw;
             B = cm_matrix cm;
             Qc = control_noise cm
         in bindE (if is_information prior then p_pred F (info_matrix prior) Q B Qc
                   else p_pred F (covar prior) Q B Qc) (\<lambda>pp.
            let ndims = ndim tm;
                G = noise_transition_matrix P;
                Y = second_moment prior
            in bindE (compute_M F Y) (\<lambda>M.
               bindE (compute_Sigma G M Q) (\<lambda>Sgm.
               bindE (compute_Omega M G Sgm) (\<lambda>Omega.
               bindE (compute_Y_pred M Omega Sgm) (\<lambda>Y_pred.
               let y = state_vector prior
               in bindE (compute_y_pred ndims Omega G F y Y (control_input cm)) (\<lambda>y_pred.
                  Inr (InformationStatePrediction y_pred Y_pred ts)))))))))"

section \<open>The recursion as the specification words it\<close>

text \<open>
  The formulas of the specification, written with the total matrix operations: they say
  what the result is, not whether the computation gets there.
\<close>

definition spec_M :: "ndarray \<Rightarrow> ndarray \<Rightarrow> ndarray" where
  "spec_M F Y = mat_mul (mat_mul (mat_inv (np_transpose F)) Y) (mat_inv F)"

definition spec_Sigma :: "ndarray \<Rightarrow> ndarray \<Rightarrow> ndarray \<Rightarrow> ndarray" where
  "spec_Sigma G M Q = mat_add (mat_mul (mat_mul G M) G) (mat_inv Q)"

definition spec_Omega :: "ndarray \<Rightarrow> ndarray \<Rightarrow> ndarray \<Rightarrow> ndarray" where
  "spec_Omega M G Sgm = mat_mul (mat_mul M G) (mat_inv Sgm)"

definition spec_Y_pred :: "nat \<Rightarrow> ndarray \<Rightarrow> ndarray \<Rightarrow> ndarray \<Rightarrow> ndarray" where
  "spec_Y_pred n F Q Y =
     (let G = np_identity n;
          M = spec_M F Y;
          Sgm = spec_Sigma G M Q;
          Omega = spec_Omega M G Sgm
      in mat_sub M (mat_mul (mat_mul Omega Sgm) (np_transpose Omega)))"

definition spec_y_pred ::
  "nat \<Rightarrow> ndarray \<Rightarrow> ndarray \<Rightarrow> ndarray \<Rightarrow> ndarray \<Rightarrow> ndarray \<Rightarrow> ndarray" where
  "spec_y_pred n F Q Y y u =
     (let G = np_identity n;
          M = spec_M F Y;
          Sgm = spec_Sigma G M Q;
          Omega = spec_Omega M G Sgm
      in mat_add
           (mat_mul (mat_mul (mat_sub (np_identity n) (mat_mul Omega (np_transpose G)))
                             (mat_inv (np_transpose F))) y)
           (mat_mul Y u))"


text \<open>
  The value lines 229 and 230 compute when no operation raises: the specification's
  formula with the matrix of ones in the place of the identity.
\<close>

definition code_y_pred ::
  "nat \<Rightarrow> ndarray \<Rightarrow> ndarray \<Rightarrow> ndarray \<Rightarrow> ndarray \<Rightarrow> ndarray \<Rightarrow> ndarray" where
  "code_y_pred n F Q Y y u =
     (let G = np_identity n;
          M = spec_M F Y;
          Sgm = spec_Sigma G M Q;
          Omega = spec_Omega M G Sgm
      in mat_add
           (mat_mul (mat_mul (mat_sub (np_ones n n) (mat_mul Omega (np_transpose G)))
                             (mat_inv (np_transpose F))) y)
           (mat_mul Y u))"

text \<open>
  The shapes \<open>predict\<close> expects for a model of state dimension \<open>n\<close>: every matrix is
  \<open>n \<times> n\<close>, the prior's vector and the control input are \<open>n \<times> 1\<close>.
\<close>

definition well_shaped :: "'kw predictor \<Rightarrow> estimate \<Rightarrow> int option \<Rightarrow> 'kw \<Rightarrow> bool" where
  "well_shaped P prior ts kw =
     (let tm = transition_model P; cm = control_model P; n = ndim_state tm;
          dt = predict_over_interval prior ts
      in 0 < n
         \<and> has_shape (tm_matrix tm None dt kw) n n
         \<and> has_shape (tm_matrix tm (Some prior) dt kw) n n
         \<and> has_shape (tm_covar tm dt kw) n n
         \<and> has_shape (state_vector prior) n 1
         \<and> has_shape (second_moment prior) n n
         \<and> has_shape (control_input cm) n 1
         \<and> has_shape (cm_matrix cm) n n
         \<and> has_shape (control_noise cm) n n)"

text \<open>The auxiliary matrix \<open>Sigma\<close> of a call.\<close>

definition Sigma_of :: "'kw predictor \<Rightarrow> estimate \<Rightarrow> int option \<Rightarrow> 'kw \<Rightarrow> ndarray" where
  "Sigma_of P prior ts kw =
     (let tm = transition_model P; dt = predict_over_interval prior ts;
          F = tm_matrix tm (Some prior) dt kw
      in spec_Sigma (np_identity (ndim_state tm)) (spec_M F (second_moment prior))
           (tm_covar tm dt kw))"

section \<open>The body of \<open>predict\<close> over a store\<close>

text \<open>
  To speak about mutation and aliasing, the arrays and the estimate objects are put in a
  store: the list of all cells, an address being an index. A numpy array object is a
  view on a buffer; \<open>.T\<close> and \<open>.transpose()\<close> make a view on the same buffer, every
  other operation used by \<open>predict\<close> (\<open>@\<close>, \<open>+\<close>, \<open>-\<close>, \<open>inv\<close>, \<open>np.identity\<close>,
  \<open>np.ones\<close>) makes a new buffer. An estimate object holds its class, the references to
  its vector and to its matrix, and its timestamp.
\<close>

datatype est_class =
  CInformationState | CInformationStatePrediction | CInformationStateUpdate | CGaussianState

datatype aref = ARef (buffer: nat) (transposed: bool)

datatype cell =
    Buffer (contents: ndarray)
  | EstimateObject (cls: est_class) (vector_ref: aref) (matrix_ref: aref)
      (stamp: "int option")

type_synonym heap = "cell list"

definition read_array :: "heap \<Rightarrow> aref \<Rightarrow> ndarray" where
  "read_array h r =
     (if transposed r then np_transpose (contents (h ! buffer r)) else contents (h ! buffer r))"

definition est_value :: "heap \<Rightarrow> cell \<Rightarrow> estimate" where
  "est_value h c =
     (case cls c of
        CInformationState \<Rightarrow>
          InformationState (read_array h (vector_ref c)) (read_array h (matrix_ref c)) (stamp c)
      | CInformationStatePrediction \<Rightarrow>
          InformationStatePrediction (read_array h (vector_ref c)) (read_array h (matrix_ref c))
            (stamp c)
      | CInformationStateUpdate \<Rightarrow>
          InformationStateUpdate (read_array h (vector_ref c)) (read_array h (matrix_ref c))
            (stamp c)
      | CGaussianState \<Rightarrow>
          GaussianState (read_array h (vector_ref c)) (read_array h (matrix_ref c)) (stamp c))"

text \<open>Computations that may raise and may extend the store.\<close>

type_synonym 'a hm = "heap \<Rightarrow> (error + 'a) \<times> heap"

definition bindH :: "'a hm \<Rightarrow> ('a \<Rightarrow> 'b hm) \<Rightarrow> 'b hm" where
  "bindH m f h = (case m h of (Inl e, h') \<Rightarrow> (Inl e, h') | (Inr x, h') \<Rightarrow> f x h')"

definition new_array :: "ndarray \<Rightarrow> aref hm" where
  "new_array A h = (Inr (ARef (length h) False), h @ [Buffer A])"

definition new_result :: "error + ndarray \<Rightarrow> aref hm" where
  "new_result r h = (case r of Inl e \<Rightarrow> (Inl e, h) | Inr A \<Rightarrow> new_array A h)"

definition transpose_h :: "aref \<Rightarrow> aref" where
  "transpose_h r = ARef (buffer r) (\<not> transposed r)"

definition matmul_h :: "aref \<Rightarrow> aref \<Rightarrow> aref hm" where
  "matmul_h a b h = new_result (np_matmul (read_array h a) (read_array h b)) h"

definition add_h :: "aref \<Rightarrow> aref \<Rightarrow> aref hm" where
  "add_h a b h = new_result (np_add (read_array h a) (read_array h b)) h"

definition sub_h :: "aref \<Rightarrow> aref \<Rightarrow> aref hm" where
  "sub_h a b h = new_result (np_sub (read_array h a) (read_array h b)) h"

definition inv_h :: "aref \<Rightarrow> aref hm" where
  "inv_h a h = new_result (linalg_inv (read_array h a)) h"

definition new_estimate :: "est_class \<Rightarrow> aref \<Rightarrow> aref \<Rightarrow> int option \<Rightarrow> nat hm" where
  "new_estimate c v m t h = (Inr (length h), h @ [EstimateObject c v m t])"

text \<open>
  The control model holds references to its three arrays; as in the value model,
  \<open>matrix()\<close> and \<open>control_input()\<close> hand out the control matrix and the control
  vector as they are.
\<close>

record control_model_h =
  control_vector_h :: aref
  control_matrix_h :: aref
  control_noise_h :: aref

definition control_model_value :: "heap \<Rightarrow> control_model_h \<Rightarrow> control_model" where
  "control_model_value h cm =
     LinearControlModel 0 [] (read_array h (control_vector_h cm))
       (read_array h (control_matrix_h cm)) (read_array h (control_noise_h cm))"

definition p_pred_h :: "aref \<Rightarrow> aref \<Rightarrow> aref \<Rightarrow> aref \<Rightarrow> aref \<Rightarrow> aref hm" where
  "p_pred_h F X Q B Qc =
     bindH (matmul_h F X) (\<lambda>a.
     bindH (matmul_h a (transpose_h F)) (\<lambda>b.
     bindH (add_h b Q) (\<lambda>c.
     bindH (matmul_h B Qc) (\<lambda>d.
     bindH (matmul_h d (transpose_h B)) (\<lambda>e.
     add_h c e)))))"

definition compute_M_h :: "aref \<Rightarrow> aref \<Rightarrow> aref hm" where
  "compute_M_h F Y =
     bindH (inv_h (transpose_h F)) (\<lambda>a.
     bindH (matmul_h a Y) (\<lambda>b.
     bindH (inv_h F) (\<lambda>c.
     matmul_h b c)))"

definition compute_Sigma_h :: "aref \<Rightarrow> aref \<Rightarrow> aref \<Rightarrow> aref hm" where
  "compute_Sigma_h G M Q =
     bindH (matmul_h G M) (\<lambda>a.
     bindH (matmul_h a G) (\<lambda>b.
     bindH (inv_h Q) (\<lambda>c.
     add_h b c)))"

definition compute_Omega_h :: "aref \<Rightarrow> aref \<Rightarrow> aref \<Rightarrow> aref hm" where
  "compute_Omega_h M G Sgm =
     bindH (matmul_h M G) (\<lambda>a.
     bindH (inv_h Sgm) (\<lambda>b.
     matmul_h a b))"

definition compute_Y_pred_h :: "aref \<Rightarrow> aref \<Rightarrow> aref \<Rightarrow> aref hm" where
  "compute_Y_pred_h M Omega Sgm =
     bindH (matmul_h Omega Sgm) (\<lambda>a.
     bindH (matmul_h a (transpose_h Omega)) (\<lambda>b.
     sub_h M b))"

definition compute_y_pred_h ::
  "nat \<Rightarrow> aref \<Rightarrow> aref \<Rightarrow> aref \<Rightarrow> aref \<Rightarrow> aref \<Rightarrow> aref \<Rightarrow> aref hm" where
  "compute_y_pred_h ndims Omega G F y Y u =
     bindH (new_array (np_ones ndims ndims)) (\<lambda>ones.
     bindH (matmul_h Omega (transpose_h G)) (\<lambda>a.
     bindH (sub_h ones a) (\<lambda>b.
     bindH (inv_h (transpose_h F)) (\<lambda>c.
     bindH (matmul_h b c) (\<lambda>d.
     bindH (matmul_h d y) (\<lambda>e.
     bindH (matmul_h Y u) (\<lambda>f.
     add_h e f)))))))"

text \<open>Lines 182 to 184: the predicted mean, computed and not used.\<close>

definition x_pred_h ::
  "'kw transition_model \<Rightarrow> control_model_h \<Rightarrow> aref \<Rightarrow> int option \<Rightarrow> 'kw \<Rightarrow> aref hm" where
  "x_pred_h tm cm y dt kw =
     bindH (new_array (tm_matrix tm None dt kw)) (\<lambda>F0.
     bindH (matmul_h F0 y) (\<lambda>fx.
     add_h fx (control_vector_h cm)))"

text \<open>
  Lines 189 to 192: the transition matrix and the process noise covariance; each call of
  a method of the transition model yields a new array.
\<close>

definition returnH :: "'a \<Rightarrow> 'a hm" where
  "returnH x h = (Inr x, h)"

definition models_h ::
  "'kw transition_model \<Rightarrow> estimate \<Rightarrow> int option \<Rightarrow> 'kw \<Rightarrow> (aref \<times> aref) hm" where
  "models_h tm prior dt kw =
     bindH (new_array (tm_matrix tm (Some prior) dt kw)) (\<lambda>F.
     bindH (new_array (tm_covar tm dt kw)) (\<lambda>Q.
     returnH (F, Q)))"

text \<open>
  Lines 199 to 232, the statements after \<open>print(prior)\<close>. The prior's vector \<open>y\<close> and
  matrix \<open>Y\<close> and the control model's arrays are used through their references. The
  result is the address of the new estimate object.
\<close>

definition recursion_h ::
  "'kw transition_model \<Rightarrow> control_model_h \<Rightarrow> aref \<Rightarrow> aref \<Rightarrow> aref \<Rightarrow> aref \<Rightarrow> int option
     \<Rightarrow> nat hm" where
  "recursion_h tm cm y Y F Q ts =
     bindH (p_pred_h F Y Q (control_matrix_h cm) (control_noise_h cm)) (\<lambda>pp.
     bindH (new_array (np_identity (ndim_state tm))) (\<lambda>G.
     bindH (compute_M_h F Y) (\<lambda>M.
     bindH (compute_Sigma_h G M Q) (\<lambda>Sgm.
     bindH (compute_Omega_h M G Sgm) (\<lambda>Omega.
     bindH (compute_Y_pred_h M Omega Sgm) (\<lambda>Y_pred.
     bindH (compute_y_pred_h (ndim tm) Omega G F y Y (control_vector_h cm)) (\<lambda>y_pred.
     new_estimate CInformationStatePrediction y_pred Y_pred ts)))))))"

text \<open>
  The body of \<open>predict\<close> for the prior object at address \<open>p\<close>, run on the store and on
  standard output, the list of what has been printed: the statements up to line 195,
  then \<open>print(prior)\<close> (line 197), then the rest. \<open>predict_h\<close> is the same body seen
  from the store alone.
\<close>

definition predict_body ::
  "'kw transition_model \<Rightarrow> control_model_h \<Rightarrow> nat \<Rightarrow> int option \<Rightarrow> 'kw
     \<Rightarrow> heap \<times> estimate list \<Rightarrow> (error + nat) \<times> heap \<times> estimate list" where
  "predict_body tm cm p ts kw = (\<lambda>(h, out).
     let prior = est_value h (h ! p);
         dt = predict_over_interval prior ts;
         y = vector_ref (h ! p);
         Y = matrix_ref (h ! p)
     in case bindH (x_pred_h tm cm y dt kw) (\<lambda>x_pred. models_h tm prior dt kw) h of
          (Inl e, h1) \<Rightarrow> (Inl e, h1, out)
        | (Inr (F, Q), h1) \<Rightarrow>
            (case recursion_h tm cm y Y F Q ts h1 of
               (r, h2) \<Rightarrow> (r, h2, out @ [prior])))"

definition predict_h ::
  "'kw transition_model \<Rightarrow> control_model_h \<Rightarrow> nat \<Rightarrow> int option \<Rightarrow> 'kw \<Rightarrow> nat hm" where
  "predict_h tm cm p ts kw h =
     (let prior = est_value h (h ! p);
          dt = predict_over_interval prior ts;
          y = vector_ref (h ! p);
          Y = matrix_ref (h ! p)
      in bindH (x_pred_h tm cm y dt kw) (\<lambda>x_pred.
         bindH (models_h tm prior dt kw) (\<lambda>(F, Q).
         recursion_h tm cm y Y F Q ts)) h)"

text \<open>
  \<open>extends h h'\<close>: the store \<open>h'\<close> is \<open>h\<close> with cells added at the end, so every
  cell of \<open>h\<close> is in \<open>h'\<close> at its address with its contents. \<open>grows m\<close>: the
  computation \<open>m\<close> only adds cells. \<open>allocates m\<close>: moreover the array it returns is a
  buffer added by \<open>m\<close>.
\<close>

definition extends :: "heap \<Rightarrow> heap \<Rightarrow> bool" where
  "extends h h' = (take (length h) h' = h)"

definition grows :: "'a hm \<Rightarrow> bool" where
  "grows m = (\<forall>h r h'. m h = (r, h') \<longrightarrow> extends h h')"

definition allocates :: "aref hm \<Rightarrow> bool" where
  "allocates m =
     (\<forall>h r h'. m h = (r, h') \<longrightarrow>
        extends h h'
        \<and> (\<forall>x. r = Inr x \<longrightarrow> length h \<le> buffer x \<and> buffer x < length h'))"

text \<open>
  \<open>fresh_estimate ts m\<close>: the computation \<open>m\<close> only adds cells, and what it returns is
  the address of an added \<open>InformationStatePrediction\<close> object with timestamp \<open>ts\<close>
  whose vector and matrix are added buffers.
\<close>

definition fresh_estimate :: "int option \<Rightarrow> nat hm \<Rightarrow> bool" where
  "fresh_estimate ts m =
     (\<forall>h r h'. m h = (r, h') \<longrightarrow>
        extends h h'
        \<and> (\<forall>a. r = Inr a \<longrightarrow>
              length h \<le> a \<and> a < length h'
              \<and> h' ! a = EstimateObject CInformationStatePrediction (vector_ref (h' ! a))
                           (matrix_ref (h' ! a)) ts
              \<and> length h \<le> buffer (vector_ref (h' ! a))
              \<and> buffer (vector_ref (h' ! a)) < length h'
              \<and> length h \<le> buffer (matrix_ref (h' ! a))
              \<and> buffer (matrix_ref (h' ! a)) < length h'))"

text \<open>
  The store model and the value model of \<open>predict\<close> are two readings of the same
  statements. \<open>known h r A\<close>: in the store \<open>h\<close> the reference \<open>r\<close> is to a cell of
  \<open>h\<close> and reads as the array \<open>A\<close>. \<open>sim m v h\<close>: run from \<open>h\<close>, the store
  computation \<open>m\<close> only adds cells, raises what the value computation \<open>v\<close> raises,
  and returns a new array that reads as what \<open>v\<close> returns. \<open>sim_est\<close> is the same for a
  computation that returns the address of an estimate object.
\<close>

definition known :: "heap \<Rightarrow> aref \<Rightarrow> ndarray \<Rightarrow> bool" where
  "known h r A = (buffer r < length h \<and> read_array h r = A)"

definition sim :: "aref hm \<Rightarrow> error + ndarray \<Rightarrow> heap \<Rightarrow> bool" where
  "sim m v h =
     (\<forall>r h'. m h = (r, h') \<longrightarrow>
        extends h h'
        \<and> (case v of
              Inl e \<Rightarrow> r = Inl e
            | Inr A \<Rightarrow> (\<exists>x. r = Inr x \<and> known h' x A \<and> \<not> transposed x)))"

definition sim_est :: "nat hm \<Rightarrow> error + estimate \<Rightarrow> heap \<Rightarrow> bool" where
  "sim_est m v h =
     (\<forall>r h'. m h = (r, h') \<longrightarrow>
        (case v of
           Inl e \<Rightarrow> r = Inl e
         | Inr est \<Rightarrow> (\<exists>a. r = Inr a \<and> a < length h' \<and> est_value h' (h' ! a) = est)))"


section \<open>The decorated method: \<open>lru_cache\<close>\<close>

text \<open>
  Line 156 wraps the body in \<open>functools.lru_cache()\<close> with its defaults: at most
  \<open>maxsize = 128\<close> entries, \<open>typed\<close> off. There is one cache for the function, hence
  for all predictors of the class, and \<open>self\<close> is part of every key. The wrapper makes
  the key from the arguments as the call passes them, before they are bound to the
  parameters: the positional ones in order, then the keyword ones in the order written.
  The same values passed by position, passed by keyword or left to a default therefore
  make different keys. An object enters the key through its hash and equality: a
  predictor and an estimate as the object it is, here its number and its address (the
  classes, not among the sources, are taken to keep the equality of \<open>object\<close>), a
  timestamp and any other argument by value.

  A call \<open>predictor.predict(...)\<close> as written: the predictor, the positional arguments
  (none, the prior, or the prior and the timestamp) and the keyword arguments.
\<close>

datatype positional = NoPositional | OnePositional nat | TwoPositional nat "int option"

datatype 'v keyword = KwPrior nat | KwTimestamp "int option" | KwOther string 'v

record 'v call =
  self_id :: nat
  pos_args :: positional
  kw_args :: "'v keyword list"

fun kw_prior :: "'v keyword list \<Rightarrow> nat option" where
  "kw_prior [] = None"
| "kw_prior (KwPrior p # ks) = Some p"
| "kw_prior (k # ks) = kw_prior ks"

fun kw_timestamp :: "'v keyword list \<Rightarrow> int option option" where
  "kw_timestamp [] = None"
| "kw_timestamp (KwTimestamp t # ks) = Some t"
| "kw_timestamp (k # ks) = kw_timestamp ks"

fun kw_others :: "'v keyword list \<Rightarrow> (string \<times> 'v) list" where
  "kw_others [] = []"
| "kw_others (KwOther n v # ks) = (n, v) # kw_others ks"
| "kw_others (k # ks) = kw_others ks"

text \<open>
  Binding the arguments to \<open>predict(self, prior, timestamp=None, **kwargs)\<close>: a missing
  \<open>prior\<close>, and a parameter given both by position and by keyword, are a \<open>TypeError\<close>;
  the keyword arguments with other names make \<open>kwargs\<close>.
\<close>

definition bind_call :: "'v call \<Rightarrow> error + (nat \<times> int option \<times> (string \<times> 'v) list)" where
  "bind_call c =
     (let ks = kw_args c;
          ts = (case kw_timestamp ks of None \<Rightarrow> None | Some t \<Rightarrow> t)
      in case pos_args c of
           NoPositional \<Rightarrow>
             (case kw_prior ks of
                None \<Rightarrow> Inl TypeError
              | Some p \<Rightarrow> Inr (p, ts, kw_others ks))
         | OnePositional p \<Rightarrow>
             (if kw_prior ks \<noteq> None then Inl TypeError else Inr (p, ts, kw_others ks))
         | TwoPositional p t \<Rightarrow>
             (if kw_prior ks \<noteq> None \<or> kw_timestamp ks \<noteq> None then Inl TypeError
              else Inr (p, t, kw_others ks)))"

text \<open>
  The state of the process: the store, the cache of \<open>predict\<close> (key and address of the
  stored result, most recently used first) and standard output.
\<close>

record 'v process_state =
  store :: heap
  cache :: "('v call \<times> nat) list"
  stdout :: "estimate list"

definition maxsize :: nat where
  "maxsize = 128"

text \<open>
  \<open>predictor.predict(...)\<close>, the decorated method. \<open>predictors\<close> gives for each predictor
  object its transition model and its control model. A hit returns the stored object
  and moves the entry to the front; a miss calls the body, which binds the arguments,
  and stores the result, dropping the least recently used entry of a full cache; when
  the body raises, nothing is stored.
\<close>

definition predict_method ::
  "(nat \<Rightarrow> ((string \<times> 'v) list) transition_model \<times> control_model_h) \<Rightarrow> 'v call
     \<Rightarrow> 'v process_state \<Rightarrow> (error + nat) \<times> 'v process_state" where
  "predict_method predictors c s =
     (case map_of (cache s) c of
        Some a \<Rightarrow> (Inr a, s\<lparr>cache := (c, a) # filter (\<lambda>e. fst e \<noteq> c) (cache s)\<rparr>)
      | None \<Rightarrow>
          (case bind_call c of
             Inl e \<Rightarrow> (Inl e, s)
           | Inr (p, ts, kw) \<Rightarrow>
               (case predict_body (fst (predictors (self_id c))) (snd (predictors (self_id c)))
                       p ts kw (store s, stdout s) of
                  (Inl e, h, out) \<Rightarrow> (Inl e, s\<lparr>store := h, stdout := out\<rparr>)
                | (Inr a, h, out) \<Rightarrow>
                    (Inr a, \<lparr>store = h, cache = take maxsize ((c, a) # cache s),
                             stdout = out\<rparr>))))"

text \<open>
  What the calls rely on and keep. \<open>valid_est h a\<close>: at address \<open>a\<close> of the store \<open>h\<close>
  is an estimate object whose vector and matrix are in \<open>h\<close>. \<open>valid_control h cm\<close>: the
  arrays of the control model are in \<open>h\<close>, the control matrix as the array itself and
  not as a transposed view. \<open>entry_ok\<close>: the entry was made by a call
  that bound a prior at \<open>p\<close> and a timestamp \<open>ts\<close>; the stored object is an
  \<open>InformationStatePrediction\<close> with timestamp \<open>ts\<close>, is not the prior, shares no buffer
  with it, and holds the estimate that \<open>predict\<close> over values gives for these arguments.
\<close>

definition valid_est :: "heap \<Rightarrow> nat \<Rightarrow> bool" where
  "valid_est h a =
     (a < length h
      \<and> (case h ! a of
            Buffer A \<Rightarrow> False
          | EstimateObject c v m t \<Rightarrow> buffer v < length h \<and> buffer m < length h))"

definition valid_control :: "heap \<Rightarrow> control_model_h \<Rightarrow> bool" where
  "valid_control h cm =
     (buffer (control_vector_h cm) < length h
      \<and> buffer (control_matrix_h cm) < length h \<and> \<not> transposed (control_matrix_h cm)
      \<and> buffer (control_noise_h cm) < length h)"

definition no_shared_buffer :: "cell \<Rightarrow> cell \<Rightarrow> bool" where
  "no_shared_buffer x y =
     (buffer (vector_ref x) \<noteq> buffer (vector_ref y)
      \<and> buffer (vector_ref x) \<noteq> buffer (matrix_ref y)
      \<and> buffer (matrix_ref x) \<noteq> buffer (vector_ref y)
      \<and> buffer (matrix_ref x) \<noteq> buffer (matrix_ref y))"

definition predictor_value ::
  "heap \<Rightarrow> 'kw transition_model \<times> control_model_h \<Rightarrow> 'kw predictor" where
  "predictor_value h P =
     \<lparr>transition_model = fst P, control_model = control_model_value h (snd P)\<rparr>"

definition entry_ok ::
  "(nat \<Rightarrow> ((string \<times> 'v) list) transition_model \<times> control_model_h) \<Rightarrow> heap
     \<Rightarrow> 'v call \<times> nat \<Rightarrow> bool" where
  "entry_ok predictors h e =
     (case bind_call (fst e) of
        Inl err \<Rightarrow> False
      | Inr (p, ts, kw) \<Rightarrow>
          valid_est h p \<and> valid_est h (snd e)
          \<and> valid_control h (snd (predictors (self_id (fst e))))
          \<and> snd e \<noteq> p
          \<and> cls (h ! snd e) = CInformationStatePrediction
          \<and> stamp (h ! snd e) = ts
          \<and> no_shared_buffer (h ! snd e) (h ! p)
          \<and> predict (predictor_value h (predictors (self_id (fst e))))
                (est_value h (h ! p)) ts kw
              = Inr (est_value h (h ! snd e)))"

definition cache_ok ::
  "(nat \<Rightarrow> ((string \<times> 'v) list) transition_model \<times> control_model_h)
     \<Rightarrow> 'v process_state \<Rightarrow> bool" where
  "cache_ok predictors s = list_all (entry_ok predictors (store s)) (cache s)"

section \<open>Particles\<close>

text \<open>
  Particle objects are mutable and refer to one another, so they live in a store: the
  list of all objects, an object's address being its index. A constructor call allocates
  the new object at the end of the store.
\<close>

datatype particle_object =
    Particle (p_state_vector: "ndarray option") (weight: real) (parent: "nat option")
  | MultiModelParticle (p_state_vector: "ndarray option") (weight: real) (dynamic_model: int)
      (parent: "nat option")

type_synonym particle_store = "particle_object list"

text \<open>
  The \<open>state_vector\<close> argument of a constructor: \<open>None\<close>, a \<open>StateVector\<close>, or anything
  else, which the constructor hands to \<open>StateVector(...)\<close>. That class is not among the
  sources; its conversion is the parameter \<open>conv\<close> of the constructors below.
\<close>

datatype sv_arg = SvNone | SvStateVector ndarray | SvOther ndarray

definition as_state_vector ::
  "(ndarray \<Rightarrow> error + ndarray) \<Rightarrow> sv_arg \<Rightarrow> error + ndarray option" where
  "as_state_vector conv arg =
     (case arg of
        SvNone \<Rightarrow> Inr None
      | SvStateVector v \<Rightarrow> Inr (Some v)
      | SvOther x \<Rightarrow> bindE (conv x) (\<lambda>v. Inr (Some v)))"

text \<open>\<open>parent.parent = None\<close> on the object at address \<open>p\<close>.\<close>

definition clear_parent :: "nat \<Rightarrow> particle_store \<Rightarrow> particle_store" where
  "clear_parent p h =
     h[p := (case h ! p of
               Particle sv w _ \<Rightarrow> Particle sv w None
             | MultiModelParticle sv w d _ \<Rightarrow> MultiModelParticle sv w d None)]"

text \<open>
  \<open>Particle.__init__\<close>, lines 18 to 23. \<open>if parent:\<close> holds for every particle object
  (the classes define neither \<open>__bool__\<close> nor \<open>__len__\<close>) and fails for \<open>None\<close>. The base
  constructor then stores the three values in the new object.
\<close>

definition Particle_init ::
  "(ndarray \<Rightarrow> error + ndarray) \<Rightarrow> sv_arg \<Rightarrow> real \<Rightarrow> nat option \<Rightarrow> particle_store
     \<Rightarrow> (error + nat) \<times> particle_store" where
  "Particle_init conv sv w par h =
     (let h1 = (case par of None \<Rightarrow> h | Some p \<Rightarrow> clear_parent p h)
      in case as_state_vector conv sv of
           Inl e \<Rightarrow> (Inl e, h1)
         | Inr v \<Rightarrow> (Inr (length h1), h1 @ [Particle v w par]))"

text \<open>\<open>MultiModelParticle.__init__\<close>, lines 41 to 47.\<close>

definition MultiModelParticle_init ::
  "(ndarray \<Rightarrow> error + ndarray) \<Rightarrow> sv_arg \<Rightarrow> real \<Rightarrow> int \<Rightarrow> nat option \<Rightarrow> particle_store
     \<Rightarrow> (error + nat) \<times> particle_store" where
  "MultiModelParticle_init conv sv w d par h =
     (let h1 = (case par of None \<Rightarrow> h | Some p \<Rightarrow> clear_parent p h)
      in case as_state_vector conv sv of
           Inl e \<Rightarrow> (Inl e, h1)
         | Inr v \<Rightarrow> (Inr (length h1), h1 @ [MultiModelParticle v w d par]))"

text \<open>A store with a grandparent at address 0 and its child at address 1.\<close>

definition ex_particles :: particle_store where
  "ex_particles = [Particle (Some [[0]]) 1 None, Particle (Some [[1]]) (1 / 2) (Some 0)]"


section \<open>Worked examples\<close>

text \<open>
  A two-dimensional model with \<open>F = Q = I\<close> and no control model; an information-form
  prior \<open>y = (1, 0)\<close>, \<open>Y = I\<close> and the covariance-form prior with the same numbers;
  priors of the wrong dimension; a zero-effect control model supplied by the caller.
\<close>

definition ex_tm :: "unit transition_model" where
  "ex_tm = \<lparr>ndim_state = 2, tm_matrix = (\<lambda>_ _ _. [[1, 0], [0, 1]]),
            tm_covar = (\<lambda>_ _. [[1, 0], [0, 1]])\<rparr>"

definition ex_predictor :: "unit predictor" where
  "ex_predictor =
     \<lparr>transition_model = ex_tm,
      control_model = LinearControlModel 2 [] (np_zeros 2 1) (np_zeros 2 2) (np_zeros 2 2)\<rparr>"

definition ex_prior :: estimate where
  "ex_prior = InformationState [[1], [0]] [[1, 0], [0, 1]] None"

definition ex_prior_gauss :: estimate where
  "ex_prior_gauss = GaussianState [[1], [0]] [[1, 0], [0, 1]] None"

definition ex_prior_short :: estimate where
  "ex_prior_short = InformationState [[1]] [[1]] None"

definition ex_prior_long :: estimate where
  "ex_prior_long = InformationState [[1], [0], [0]] [[1, 0, 0], [0, 1, 0], [0, 0, 1]] None"

definition ex_zero_control :: control_model where
  "ex_zero_control = LinearControlModel 2 [0, 1] (np_zeros 2 1) (np_zeros 2 2) (np_zeros 2 2)"

text \<open>
  The constant-velocity scenario of the specification: \<open>F = [[1, 1], [0, 1]]\<close>,
  \<open>Q = 0.1 I\<close>, prior \<open>y = (0, 0)\<close>, \<open>Y = I\<close>, no control.
\<close>

definition ex_tm_cv :: "unit transition_model" where
  "ex_tm_cv = \<lparr>ndim_state = 2, tm_matrix = (\<lambda>_ _ _. [[1, 1], [0, 1]]),
               tm_covar = (\<lambda>_ _. [[1 / 10, 0], [0, 1 / 10]])\<rparr>"

definition ex_predictor_cv :: "unit predictor" where
  "ex_predictor_cv =
     \<lparr>transition_model = ex_tm_cv,
      control_model = LinearControlModel 2 [] (np_zeros 2 1) (np_zeros 2 2) (np_zeros 2 2)\<rparr>"

definition ex_prior_cv :: estimate where
  "ex_prior_cv = InformationState [[0], [0]] [[1, 0], [0, 1]] None"


text \<open>
  A store for the worked example: the prior's vector and matrix, the three arrays of
  the zero-effect control model, and the prior object at address 5.
\<close>

definition ex_heap :: heap where
  "ex_heap =
     [Buffer [[1], [0]], Buffer [[1, 0], [0, 1]],
      Buffer [[0], [0]], Buffer [[0, 0], [0, 0]], Buffer [[0, 0], [0, 0]],
      EstimateObject CInformationState (ARef 0 False) (ARef 1 False) None]"

definition ex_control_h :: control_model_h where
  "ex_control_h = \<lparr>control_vector_h = ARef 2 False, control_matrix_h = ARef 3 False,
                   control_noise_h = ARef 4 False\<rparr>"

text \<open>The store after \<open>predict\<close> has run on it for the prior at address 5.\<close>

definition ex_heap_after :: heap where
  "ex_heap_after =
     ex_heap @
     [Buffer [[1, 0], [0, 1]], Buffer [[1], [0]], Buffer [[1], [0]],
      Buffer [[1, 0], [0, 1]], Buffer [[1, 0], [0, 1]],
      Buffer [[1, 0], [0, 1]], Buffer [[1, 0], [0, 1]],
      Buffer [[2, 0], [0, 2]], Buffer [[0, 0], [0, 0]],
      Buffer [[0, 0], [0, 0]], Buffer [[2, 0], [0, 2]],
      Buffer [[1, 0], [0, 1]], Buffer [[1, 0], [0, 1]],
      Buffer [[1, 0], [0, 1]], Buffer [[1, 0], [0, 1]],
      Buffer [[1, 0], [0, 1]], Buffer [[1, 0], [0, 1]],
      Buffer [[1, 0], [0, 1]], Buffer [[1, 0], [0, 1]],
      Buffer [[2, 0], [0, 2]], Buffer [[1, 0], [0, 1]],
      Buffer [[1 / 2, 0], [0, 1 / 2]], Buffer [[1 / 2, 0], [0, 1 / 2]],
      Buffer [[1, 0], [0, 1]], Buffer [[1 / 2, 0], [0, 1 / 2]],
      Buffer [[1 / 2, 0], [0, 1 / 2]], Buffer [[1, 1], [1, 1]],
      Buffer [[1 / 2, 0], [0, 1 / 2]], Buffer [[1 / 2, 1], [1, 1 / 2]],
      Buffer [[1, 0], [0, 1]], Buffer [[1 / 2, 1], [1, 1 / 2]],
      Buffer [[1 / 2], [1]], Buffer [[0], [0]], Buffer [[1 / 2], [1]],
      EstimateObject CInformationStatePrediction (ARef 39 False) (ARef 31 False) None]"


text \<open>
  One predictor, numbered 0, with the model of the worked example. The same arguments,
  the prior at address 5 and the timestamp \<open>None\<close>, written in two ways:
  \<open>predict(prior, timestamp=None)\<close> and \<open>predict(prior, None)\<close>. The state before any
  call, and the state after the first call.
\<close>

definition ex_tm_kw :: "((string \<times> unit) list) transition_model" where
  "ex_tm_kw = \<lparr>ndim_state = 2, tm_matrix = (\<lambda>_ _ _. [[1, 0], [0, 1]]),
               tm_covar = (\<lambda>_ _. [[1, 0], [0, 1]])\<rparr>"

definition ex_predictors ::
  "nat \<Rightarrow> ((string \<times> unit) list) transition_model \<times> control_model_h" where
  "ex_predictors = (\<lambda>_. (ex_tm_kw, ex_control_h))"

definition ex_call_keyword :: "unit call" where
  "ex_call_keyword =
     \<lparr>self_id = 0, pos_args = OnePositional 5, kw_args = [KwTimestamp None]\<rparr>"

definition ex_call_positional :: "unit call" where
  "ex_call_positional = \<lparr>self_id = 0, pos_args = TwoPositional 5 None, kw_args = []\<rparr>"

definition ex_state0 :: "unit process_state" where
  "ex_state0 = \<lparr>store = ex_heap, cache = [], stdout = []\<rparr>"

definition ex_state1 :: "unit process_state" where
  "ex_state1 = \<lparr>store = ex_heap_after, cache = [(ex_call_keyword, 40)],
                stdout = [InformationState [[1], [0]] [[1, 0], [0, 1]] None]\<rparr>"

section \<open>Basic facts\<close>

lemmas np_defs = nrows_def ncols_def shape_def np_zeros_def np_ones_def np_identity_def
  np_transpose_def dot_def column_def mat_mul_def np_matmul_def broadcastable_def bdim_def
  broadcast_to_def mat_binop_def np_binop_def np_add_def np_sub_def mat_add_def mat_sub_def
  dropnth_def minor_def adjugate_def square_def mat_inv_def linalg_inv_def bindE_def

lemmas predict_defs = predict_def x_pred_of_def LinearControlModel_def cm_matrix_def
  control_input_def transition_function_def transition_matrix_def predict_over_interval_def
  is_information_def p_pred_def second_moment_def compute_M_def compute_Sigma_def
  compute_Omega_def compute_Y_pred_def compute_y_pred_def ndim_def noise_transition_matrix_def

lemmas ex_defs = ex_tm_def ex_predictor_def ex_prior_def ex_prior_gauss_def ex_prior_short_def
  ex_prior_long_def ex_zero_control_def ex_tm_cv_def ex_predictor_cv_def
  ex_prior_cv_def

lemma bindE_Inl: "bindE (Inl e) f = Inl e"
  by (simp add: bindE_def)

lemma bindE_Inr: "bindE (Inr x) f = f x"
  by (simp add: bindE_def)

lemma bindE_eq_Inr: "bindE m f = Inr y \<longleftrightarrow> (\<exists>x. m = Inr x \<and> f x = Inr y)"
  by (cases m) (simp_all add: bindE_def)

lemma np_matmul_Inr: "np_matmul A B = Inr C \<Longrightarrow> C = mat_mul A B"
  by (simp add: np_matmul_def split: if_splits)

lemma np_add_Inr: "np_add A B = Inr C \<Longrightarrow> C = mat_add A B"
  by (simp add: np_add_def np_binop_def mat_add_def split: if_splits)

lemma np_sub_Inr: "np_sub A B = Inr C \<Longrightarrow> C = mat_sub A B"
  by (simp add: np_sub_def np_binop_def mat_sub_def split: if_splits)

lemma linalg_inv_Inr: "linalg_inv A = Inr C \<Longrightarrow> C = mat_inv A"
  by (simp add: linalg_inv_def split: if_splits)

lemma compute_M_Inr: "compute_M F Y = Inr M \<Longrightarrow> M = spec_M F Y"
  by (auto simp: compute_M_def spec_M_def bindE_eq_Inr
      dest!: np_matmul_Inr linalg_inv_Inr)

lemma compute_Sigma_Inr: "compute_Sigma G M Q = Inr S \<Longrightarrow> S = spec_Sigma G M Q"
  by (auto simp: compute_Sigma_def spec_Sigma_def bindE_eq_Inr
      dest!: np_matmul_Inr linalg_inv_Inr np_add_Inr)

lemma compute_Omega_Inr: "compute_Omega M G S = Inr W \<Longrightarrow> W = spec_Omega M G S"
  by (auto simp: compute_Omega_def spec_Omega_def bindE_eq_Inr
      dest!: np_matmul_Inr linalg_inv_Inr)

lemma compute_Y_pred_Inr:
  "compute_Y_pred M W S = Inr Yp \<Longrightarrow> Yp = mat_sub M (mat_mul (mat_mul W S) (np_transpose W))"
  by (auto simp: compute_Y_pred_def bindE_eq_Inr dest!: np_matmul_Inr np_sub_Inr)

lemma compute_y_pred_Inr:
  "compute_y_pred n W G F y Y u = Inr v \<Longrightarrow>
     v = mat_add (mat_mul (mat_mul (mat_sub (np_ones n n) (mat_mul W (np_transpose G)))
                                   (mat_inv (np_transpose F))) y)
                 (mat_mul Y u)"
  by (auto simp: compute_y_pred_def bindE_eq_Inr
      dest!: np_matmul_Inr np_sub_Inr np_add_Inr linalg_inv_Inr)

lemma predict_Inr_fields:
  assumes "predict P prior ts kw = Inr est"
  shows "est = InformationStatePrediction
                 (code_y_pred (ndim_state (transition_model P))
                    (transition_matrix P (Some prior) (predict_over_interval prior ts) kw)
                    (tm_covar (transition_model P) (predict_over_interval prior ts) kw)
                    (second_moment prior) (state_vector prior)
                    (control_input (control_model P)))
                 (spec_Y_pred (ndim_state (transition_model P))
                    (transition_matrix P (Some prior) (predict_over_interval prior ts) kw)
                    (tm_covar (transition_model P) (predict_over_interval prior ts) kw)
                    (second_moment prior))
                 ts"
  using assms
  by (auto simp: predict_def Let_def bindE_eq_Inr spec_Y_pred_def code_y_pred_def
      noise_transition_matrix_def ndim_def
      dest!: compute_M_Inr compute_Sigma_Inr compute_Omega_Inr compute_Y_pred_Inr
        compute_y_pred_Inr)

text \<open>\<open>predict\<close> reads the control model through its three accessors only.\<close>

lemma predict_cong:
  assumes "transition_model P = transition_model P'"
    and "cm_matrix (control_model P) = cm_matrix (control_model P')"
    and "control_input (control_model P) = control_input (control_model P')"
    and "control_noise (control_model P) = control_noise (control_model P')"
  shows "predict P prior ts kw = predict P' prior ts kw"
  unfolding predict_def x_pred_of_def transition_function_def transition_matrix_def
    noise_transition_matrix_def Let_def
  by (simp only: assms)

subsection \<open>The examples, evaluated\<close>

lemma ex_init: "InfoFilterPredictor_init (Some ex_tm) None = Inr ex_predictor"
  by (simp add: InfoFilterPredictor_init_def Base_init_def bindE_def ex_predictor_def ex_tm_def)

lemma ex_predict:
  "predict ex_predictor ex_prior ts ()
     = Inr (InformationStatePrediction [[1 / 2], [1]] [[1 / 2, 0], [0, 1 / 2]] ts)"
  by (simp add: predict_defs ex_defs np_defs Let_def eval_nat_numeral)

lemma ex_predict_gauss:
  "predict ex_predictor ex_prior_gauss ts ()
     = Inr (InformationStatePrediction [[1 / 2], [1]] [[1 / 2, 0], [0, 1 / 2]] ts)"
  by (simp add: predict_defs ex_defs np_defs Let_def eval_nat_numeral)

lemma ex_identity: "np_identity 2 = [[1, 0], [0, 1]]"
  by (simp add: np_identity_def eval_nat_numeral)

lemma ex_spec_M: "spec_M [[1, 0], [0, 1]] [[1, 0], [0, 1]] = [[1, 0], [0, 1]]"
  by (simp add: spec_M_def np_defs eval_nat_numeral)

lemma ex_spec_Sigma:
  "spec_Sigma [[1, 0], [0, 1]] [[1, 0], [0, 1]] [[1, 0], [0, 1]] = [[2, 0], [0, 2]]"
  by (simp add: spec_Sigma_def np_defs eval_nat_numeral)

lemma ex_spec_Omega:
  "spec_Omega [[1, 0], [0, 1]] [[1, 0], [0, 1]] [[2, 0], [0, 2]] = [[1 / 2, 0], [0, 1 / 2]]"
  by (simp add: spec_Omega_def np_defs eval_nat_numeral)

lemma ex_spec_Y_pred:
  "spec_Y_pred 2 [[1, 0], [0, 1]] [[1, 0], [0, 1]] [[1, 0], [0, 1]] = [[1 / 2, 0], [0, 1 / 2]]"
  unfolding spec_Y_pred_def Let_def ex_identity ex_spec_M ex_spec_Sigma ex_spec_Omega
  by (simp add: np_defs eval_nat_numeral)

lemma ex_spec_y_pred:
  "spec_y_pred 2 [[1, 0], [0, 1]] [[1, 0], [0, 1]] [[1, 0], [0, 1]] [[1], [0]] (np_zeros 2 1)
     = [[1 / 2], [0]]"
  unfolding spec_y_pred_def Let_def ex_identity ex_spec_M ex_spec_Sigma ex_spec_Omega
  by (simp add: np_defs eval_nat_numeral)

lemma ex_code_y_pred:
  "code_y_pred 2 [[1, 0], [0, 1]] [[1, 0], [0, 1]] [[1, 0], [0, 1]] [[1], [0]] (np_zeros 2 1)
     = [[1 / 2], [1]]"
  unfolding code_y_pred_def Let_def ex_identity ex_spec_M ex_spec_Sigma ex_spec_Omega
  by (simp add: np_defs eval_nat_numeral)

lemma ex_well_shaped: "well_shaped ex_predictor ex_prior ts ()"
  by (simp add: well_shaped_def has_shape_def predict_defs ex_defs np_defs Let_def
      eval_nat_numeral)

lemma ex_det_identity: "det [[1, 0], [0, 1]] = 1"
  by (simp add: np_defs eval_nat_numeral)

text \<open>
  \<open>linalg_inv\<close> on a matrix with an inverse and on one without; the constant-velocity
  scenario, where the predicted information matrix is symmetric and its first diagonal
  entry is below that of the prior.
\<close>

lemma ex_linalg_inv:
  "linalg_inv [[1, 2], [3, 4]] = Inr [[- 2, 1], [3 / 2, - (1 / 2)]]
   \<and> np_matmul [[1, 2], [3, 4]] [[- 2, 1], [3 / 2, - (1 / 2)]] = Inr [[1, 0], [0, 1]]
   \<and> linalg_inv [[1, 2], [2, 4]] = Inl LinAlgError"
  by (simp add: np_defs eval_nat_numeral)

lemma ex_predict_cv:
  "predict ex_predictor_cv ex_prior_cv ts ()
     = Inr (InformationStatePrediction [[0], [0]]
              [[110 / 131, - (100 / 131)], [- (100 / 131), 210 / 131]] ts)"
  by (simp add: predict_defs ex_defs np_defs Let_def eval_nat_numeral)


lemma has_shapeI:
  "length A = n \<Longrightarrow> (\<And>r. r \<in> set A \<Longrightarrow> length r = m) \<Longrightarrow> (n = 0 \<Longrightarrow> m = 0) \<Longrightarrow> has_shape A n m"
  by (cases A) (auto simp: has_shape_def ncols_def list_all_iff)

lemma has_shape_length: "has_shape A n m \<Longrightarrow> length A = n"
  by (simp add: has_shape_def)

lemma has_shape_ncols: "has_shape A n m \<Longrightarrow> ncols A = m"
  by (simp add: has_shape_def)

lemma has_shape_nrows: "has_shape A n m \<Longrightarrow> nrows A = n"
  by (simp add: has_shape_def nrows_def)

lemma has_shape_row: "has_shape A n m \<Longrightarrow> r \<in> set A \<Longrightarrow> length r = m"
  by (simp add: has_shape_def list_all_iff)

lemma has_shape_zero: "has_shape A 0 m \<Longrightarrow> m = 0"
  by (auto simp: has_shape_def ncols_def)

lemma has_shape_mat_mul:
  assumes "has_shape A n k" and "has_shape B k m"
  shows "has_shape (mat_mul A B) n m"
proof (rule has_shapeI)
  show "length (mat_mul A B) = n"
    using assms(1) by (simp add: mat_mul_def has_shape_def)
  show "length r = m" if "r \<in> set (mat_mul A B)" for r
    using that assms(2) by (auto simp: mat_mul_def has_shape_def)
  show "m = 0" if "n = 0"
    using that assms by (auto dest!: has_shape_zero)
qed

lemma np_matmul_ok:
  "has_shape A n k \<Longrightarrow> has_shape B k m \<Longrightarrow> np_matmul A B = Inr (mat_mul A B)"
  by (simp add: np_matmul_def has_shape_def nrows_def)

lemma has_shape_transpose:
  assumes "has_shape A n m" and "0 < m"
  shows "has_shape (np_transpose A) m n"
proof (rule has_shapeI)
  show "length (np_transpose A) = m"
    using assms(1) by (simp add: np_transpose_def has_shape_def)
  show "length r = n" if "r \<in> set (np_transpose A)" for r
    using that assms(1) by (auto simp: np_transpose_def has_shape_def)
  show "n = 0" if "m = 0"
    using that assms(2) by simp
qed

lemma has_shape_mat_binop:
  assumes "has_shape A n m" and "has_shape B n m"
  shows "has_shape (mat_binop f A B) n m"
proof (rule has_shapeI)
  show "length (mat_binop f A B) = n"
    using assms by (simp add: mat_binop_def broadcast_to_def has_shape_def nrows_def bdim_def)
  show "length r = m" if "r \<in> set (mat_binop f A B)" for r
    using that assms
    by (auto simp: mat_binop_def broadcast_to_def has_shape_def nrows_def bdim_def
        Let_def set_zip)
  show "m = 0" if "n = 0"
    using that assms by (auto dest!: has_shape_zero)
qed

lemma np_binop_ok:
  "has_shape A n m \<Longrightarrow> has_shape B n m \<Longrightarrow> np_binop f A B = Inr (mat_binop f A B)"
  by (simp add: np_binop_def has_shape_def nrows_def shape_def broadcastable_def)

lemma np_add_ok: "has_shape A n m \<Longrightarrow> has_shape B n m \<Longrightarrow> np_add A B = Inr (mat_add A B)"
  by (simp add: np_add_def mat_add_def np_binop_ok)

lemma np_sub_ok: "has_shape A n m \<Longrightarrow> has_shape B n m \<Longrightarrow> np_sub A B = Inr (mat_sub A B)"
  by (simp add: np_sub_def mat_sub_def np_binop_ok)

lemma has_shape_mat_add: "has_shape A n m \<Longrightarrow> has_shape B n m \<Longrightarrow> has_shape (mat_add A B) n m"
  by (simp add: mat_add_def has_shape_mat_binop)

lemma has_shape_mat_sub: "has_shape A n m \<Longrightarrow> has_shape B n m \<Longrightarrow> has_shape (mat_sub A B) n m"
  by (simp add: mat_sub_def has_shape_mat_binop)

lemma has_shape_mat_inv:
  assumes "has_shape A n n"
  shows "has_shape (mat_inv A) n n"
proof (rule has_shapeI)
  show "length (mat_inv A) = n"
    using assms by (simp add: mat_inv_def adjugate_def has_shape_def)
  show "length r = n" if "r \<in> set (mat_inv A)" for r
    using that assms by (auto simp: mat_inv_def adjugate_def has_shape_def)
qed simp

lemma has_shape_square: "has_shape A n n \<Longrightarrow> square A"
  by (simp add: has_shape_def square_def)

lemma linalg_inv_cases:
  "has_shape A n n \<Longrightarrow>
     linalg_inv A = (if det A = 0 then Inl LinAlgError else Inr (mat_inv A))"
  by (simp add: linalg_inv_def has_shape_square)

lemma has_shape_identity: "has_shape (np_identity n) n n"
  by (rule has_shapeI) (auto simp: np_identity_def)

lemma has_shape_ones: "has_shape (np_ones n n) n n"
  by (rule has_shapeI) (auto simp: np_ones_def)

lemma has_shape_zeros: "0 < n \<Longrightarrow> has_shape (np_zeros n m) n m"
  by (rule has_shapeI) (auto simp: np_zeros_def)

lemma p_pred_ok:
  assumes "0 < n" "has_shape F n n" "has_shape X n n" "has_shape Q n n" "has_shape B n n"
    "has_shape Qc n n"
  shows "\<exists>pp. p_pred F X Q B Qc = Inr pp"
proof -
  note tF = has_shape_transpose [OF assms(2) assms(1)]
  note tB = has_shape_transpose [OF assms(5) assms(1)]
  note a = has_shape_mat_mul [OF assms(2) assms(3)]
  note b = has_shape_mat_mul [OF a tF]
  note c = has_shape_mat_add [OF b assms(4)]
  note d = has_shape_mat_mul [OF assms(5) assms(6)]
  note e = has_shape_mat_mul [OF d tB]
  show ?thesis
    unfolding p_pred_def
    by (simp add: np_matmul_ok [OF assms(2) assms(3)] np_matmul_ok [OF a tF]
        np_add_ok [OF b assms(4)] np_matmul_ok [OF assms(5) assms(6)] np_matmul_ok [OF d tB]
        np_add_ok [OF c e] bindE_Inr)
qed

lemma compute_M_cases:
  assumes "0 < n" "has_shape F n n" "has_shape Y n n"
  shows "compute_M F Y =
           (if det (np_transpose F) = 0 \<or> det F = 0 then Inl LinAlgError
            else Inr (spec_M F Y))"
    and "has_shape (spec_M F Y) n n"
proof -
  note tF = has_shape_transpose [OF assms(2) assms(1)]
  note a = has_shape_mat_inv [OF tF]
  note b = has_shape_mat_mul [OF a assms(3)]
  note c = has_shape_mat_inv [OF assms(2)]
  show "compute_M F Y =
           (if det (np_transpose F) = 0 \<or> det F = 0 then Inl LinAlgError
            else Inr (spec_M F Y))"
    unfolding compute_M_def spec_M_def
    by (simp add: linalg_inv_cases [OF tF] linalg_inv_cases [OF assms(2)]
        np_matmul_ok [OF a assms(3)] np_matmul_ok [OF b c] bindE_Inr bindE_Inl)
  show "has_shape (spec_M F Y) n n"
    unfolding spec_M_def by (rule has_shape_mat_mul [OF b c])
qed

lemma compute_Sigma_cases:
  assumes "has_shape G n n" "has_shape M n n" "has_shape Q n n"
  shows "compute_Sigma G M Q =
           (if det Q = 0 then Inl LinAlgError else Inr (spec_Sigma G M Q))"
    and "has_shape (spec_Sigma G M Q) n n"
proof -
  note a = has_shape_mat_mul [OF assms(1) assms(2)]
  note b = has_shape_mat_mul [OF a assms(1)]
  note c = has_shape_mat_inv [OF assms(3)]
  show "compute_Sigma G M Q =
           (if det Q = 0 then Inl LinAlgError else Inr (spec_Sigma G M Q))"
    unfolding compute_Sigma_def spec_Sigma_def
    by (simp add: np_matmul_ok [OF assms(1) assms(2)] np_matmul_ok [OF a assms(1)]
        linalg_inv_cases [OF assms(3)] np_add_ok [OF b c] bindE_Inr bindE_Inl)
  show "has_shape (spec_Sigma G M Q) n n"
    unfolding spec_Sigma_def by (rule has_shape_mat_add [OF b c])
qed

lemma compute_Omega_cases:
  assumes "has_shape M n n" "has_shape G n n" "has_shape S n n"
  shows "compute_Omega M G S =
           (if det S = 0 then Inl LinAlgError else Inr (spec_Omega M G S))"
    and "has_shape (spec_Omega M G S) n n"
proof -
  note a = has_shape_mat_mul [OF assms(1) assms(2)]
  note b = has_shape_mat_inv [OF assms(3)]
  show "compute_Omega M G S =
           (if det S = 0 then Inl LinAlgError else Inr (spec_Omega M G S))"
    unfolding compute_Omega_def spec_Omega_def
    by (simp add: np_matmul_ok [OF assms(1) assms(2)] linalg_inv_cases [OF assms(3)]
        np_matmul_ok [OF a b] bindE_Inr bindE_Inl)
  show "has_shape (spec_Omega M G S) n n"
    unfolding spec_Omega_def by (rule has_shape_mat_mul [OF a b])
qed

lemma compute_Y_pred_ok:
  assumes "0 < n" "has_shape M n n" "has_shape W n n" "has_shape S n n"
  shows "compute_Y_pred M W S = Inr (mat_sub M (mat_mul (mat_mul W S) (np_transpose W)))"
proof -
  note tW = has_shape_transpose [OF assms(3) assms(1)]
  note a = has_shape_mat_mul [OF assms(3) assms(4)]
  note b = has_shape_mat_mul [OF a tW]
  show ?thesis
    unfolding compute_Y_pred_def
    by (simp add: np_matmul_ok [OF assms(3) assms(4)] np_matmul_ok [OF a tW]
        np_sub_ok [OF assms(2) b] bindE_Inr)
qed

lemma compute_y_pred_ok:
  assumes "0 < n" "has_shape W n n" "has_shape F n n" "has_shape y n 1" "has_shape Y n n"
    "has_shape u n 1" "det (np_transpose F) \<noteq> 0"
  shows "compute_y_pred n W (np_identity n) F y Y u =
           Inr (mat_add
                  (mat_mul (mat_mul (mat_sub (np_ones n n)
                                       (mat_mul W (np_transpose (np_identity n))))
                                    (mat_inv (np_transpose F))) y)
                  (mat_mul Y u))"
proof -
  note tG = has_shape_transpose [OF has_shape_identity assms(1)]
  note tF = has_shape_transpose [OF assms(3) assms(1)]
  note a = has_shape_mat_mul [OF assms(2) tG]
  note b = has_shape_mat_sub [OF has_shape_ones a]
  note c = has_shape_mat_inv [OF tF]
  note d = has_shape_mat_mul [OF b c]
  note e = has_shape_mat_mul [OF d assms(4)]
  note f = has_shape_mat_mul [OF assms(5) assms(6)]
  show ?thesis
    unfolding compute_y_pred_def
    by (simp add: np_matmul_ok [OF assms(2) tG] np_sub_ok [OF has_shape_ones a]
        linalg_inv_cases [OF tF] assms(7) np_matmul_ok [OF b c] np_matmul_ok [OF d assms(4)]
        np_matmul_ok [OF assms(5) assms(6)] np_add_ok [OF e f] bindE_Inr)
qed

lemma p_pred_second_moment:
  "(if is_information prior then p_pred F (info_matrix prior) Q B Qc
    else p_pred F (covar prior) Q B Qc) = p_pred F (second_moment prior) Q B Qc"
  by (simp add: second_moment_def)

lemma predict_cases:
  assumes ws: "well_shaped P prior ts kw"
  shows "predict P prior ts kw =
           (let tm = transition_model P; n = ndim_state tm;
                dt = predict_over_interval prior ts;
                F = tm_matrix tm (Some prior) dt kw; Q = tm_covar tm dt kw;
                Y = second_moment prior
            in if det (np_transpose F) = 0 \<or> det F = 0 \<or> det Q = 0
                  \<or> det (Sigma_of P prior ts kw) = 0
               then Inl LinAlgError
               else Inr (InformationStatePrediction
                           (code_y_pred n F Q Y (state_vector prior)
                              (control_input (control_model P)))
                           (spec_Y_pred n F Q Y) ts))"
proof -
  define tm where "tm = transition_model P"
  define cm where "cm = control_model P"
  define n where "n = ndim_state tm"
  define dt where "dt = predict_over_interval prior ts"
  define F0 where "F0 = tm_matrix tm None dt kw"
  define F where "F = tm_matrix tm (Some prior) dt kw"
  define Q where "Q = tm_covar tm dt kw"
  define Y where "Y = second_moment prior"
  define y where "y = state_vector prior"
  define u where "u = control_input cm"
  define G where "G = np_identity n"
  define M where "M = spec_M F Y"
  define S where "S = spec_Sigma G M Q"
  define W where "W = spec_Omega M G S"
  have n: "0 < n" and F0: "has_shape F0 n n" and F: "has_shape F n n"
    and Q: "has_shape Q n n" and y: "has_shape y n 1" and Y: "has_shape Y n n"
    and u: "has_shape u n 1" and B: "has_shape (cm_matrix cm) n n"
    and Qc: "has_shape (control_noise cm) n n"
    using ws
    by (simp_all add: well_shaped_def Let_def tm_def cm_def n_def dt_def F0_def F_def Q_def
        Y_def y_def u_def)
  have G: "has_shape G n n"
    by (simp add: G_def has_shape_identity)
  have fx: "transition_function P prior dt kw = Inr (mat_mul F0 y)"
    using np_matmul_ok [OF F0 y] by (simp add: transition_function_def F0_def y_def tm_def)
  have "np_add (mat_mul F0 y) u = Inr (mat_add (mat_mul F0 y) u)"
    by (rule np_add_ok [OF has_shape_mat_mul [OF F0 y] u])
  then have xp: "x_pred_of P prior dt kw = Inr (mat_add (mat_mul F0 y) u)"
    by (simp add: x_pred_of_def fx bindE_Inr u_def cm_def)
  obtain pp where pp: "p_pred F Y Q (cm_matrix cm) (control_noise cm) = Inr pp"
    using p_pred_ok [OF n F Y Q B Qc] by blast
  have cM: "compute_M F Y =
              (if det (np_transpose F) = 0 \<or> det F = 0 then Inl LinAlgError else Inr M)"
    and M: "has_shape M n n"
    using compute_M_cases [OF n F Y] by (simp_all add: M_def)
  have cS: "compute_Sigma G M Q = (if det Q = 0 then Inl LinAlgError else Inr S)"
    and S: "has_shape S n n"
    using compute_Sigma_cases [OF G M Q] by (simp_all add: S_def)
  have cW: "compute_Omega M G S = (if det S = 0 then Inl LinAlgError else Inr W)"
    and W: "has_shape W n n"
    using compute_Omega_cases [OF M G S] by (simp_all add: W_def)
  have cY: "compute_Y_pred M W S = Inr (spec_Y_pred n F Q Y)"
    using compute_Y_pred_ok [OF n M W S]
    by (simp add: spec_Y_pred_def Let_def G_def M_def S_def W_def)
  have cy: "det (np_transpose F) \<noteq> 0 \<Longrightarrow>
              compute_y_pred n W G F y Y u = Inr (code_y_pred n F Q Y y u)"
    using compute_y_pred_ok [OF n W F y Y u]
    by (simp add: code_y_pred_def Let_def G_def M_def S_def W_def)
  have Sg: "Sigma_of P prior ts kw = S"
    by (simp add: Sigma_of_def Let_def S_def G_def M_def F_def Y_def Q_def dt_def n_def tm_def)
  have "predict P prior ts kw =
          (if det (np_transpose F) = 0 \<or> det F = 0 \<or> det Q = 0 \<or> det S = 0
           then Inl LinAlgError
           else Inr (InformationStatePrediction (code_y_pred n F Q Y y u)
                       (spec_Y_pred n F Q Y) ts))"
    unfolding predict_def Let_def p_pred_second_moment transition_matrix_def
      noise_transition_matrix_def ndim_def
    unfolding tm_def [symmetric] cm_def [symmetric] dt_def [symmetric]
    unfolding n_def [symmetric] F_def [symmetric] Q_def [symmetric] Y_def [symmetric]
      y_def [symmetric] u_def [symmetric] G_def [symmetric]
    by (simp add: xp pp cM cS cW cY cy bindE_Inr bindE_Inl)
  then show ?thesis
    by (simp add: Let_def Sg tm_def cm_def n_def dt_def F_def Q_def Y_def y_def u_def)
qed

section \<open>When \<open>predict\<close> returns\<close>

text \<open>
  With the expected shapes and \<open>F\<close>, \<open>Q\<close> and \<open>Sigma\<close> invertible the call returns an
  estimate: the result claims below are not about an empty set of calls.
\<close>

lemma predict_returns:
  assumes "well_shaped P prior ts kw"
    and "det (np_transpose (tm_matrix (transition_model P) (Some prior)
                              (predict_over_interval prior ts) kw)) \<noteq> 0"
    and "det (tm_matrix (transition_model P) (Some prior)
                (predict_over_interval prior ts) kw) \<noteq> 0"
    and "det (tm_covar (transition_model P) (predict_over_interval prior ts) kw) \<noteq> 0"
    and "det (Sigma_of P prior ts kw) \<noteq> 0"
  shows "\<exists>est. predict P prior ts kw = Inr est"
  using assms(2-) by (simp add: predict_cases [OF assms(1)] Let_def)

section \<open>The predicted information vector\<close>

text \<open>
  Claim C1. The specification's formula for the predicted information vector is
  \<open>(I - Omega transpose(G)) inverse(transpose(F)) y + Y u\<close>. The code builds the first
  factor from \<open>np.ones((ndims, ndims))\<close>, the matrix of ones, where the formula has the
  identity. On the worked example the code returns \<open>(1/2, 1)\<close> and the formula gives
  \<open>(1/2, 0)\<close>.
\<close>

theorem predict_info_vector_uses_ones:
  "predict ex_predictor ex_prior None ()
     = Inr (InformationStatePrediction [[1 / 2], [1]] [[1 / 2, 0], [0, 1 / 2]] None)
   \<and> spec_y_pred 2 [[1, 0], [0, 1]] [[1, 0], [0, 1]] [[1, 0], [0, 1]] [[1], [0]] (np_zeros 2 1)
       = [[1 / 2], [0]]"
  using ex_predict [of None] ex_spec_y_pred by (rule conjI)

section \<open>The predicted information matrix\<close>

text \<open>
  Claim C2. Whenever \<open>predict\<close> returns an estimate, its information matrix is the value
  of the recursion \<open>M = inverse(transpose(F)) Y inverse(F)\<close>,
  \<open>Sigma = G M G + inverse(Q)\<close>, \<open>Omega = M G inverse(Sigma)\<close>,
  \<open>Y_pred = M - Omega Sigma transpose(Omega)\<close>, with \<open>G\<close> the identity of size
  \<open>ndim_state\<close>, \<open>F\<close> and \<open>Q\<close> the transition model's matrix and covariance over the
  prediction interval, and \<open>Y\<close> the prior's second-moment matrix.
\<close>

theorem predict_info_matrix_recursion:
  assumes "predict P prior ts kw = Inr est"
  shows "info_matrix est =
           spec_Y_pred (ndim_state (transition_model P))
             (transition_matrix P (Some prior) (predict_over_interval prior ts) kw)
             (tm_covar (transition_model P) (predict_over_interval prior ts) kw)
             (second_moment prior)"
  using assms
  by (auto simp: predict_def Let_def bindE_eq_Inr spec_Y_pred_def noise_transition_matrix_def
      dest!: compute_M_Inr compute_Sigma_Inr compute_Omega_Inr compute_Y_pred_Inr)

theorem predict_info_matrix_recursion_witness:
  "predict ex_predictor ex_prior None ()
     = Inr (InformationStatePrediction [[1 / 2], [1]] [[1 / 2, 0], [0, 1 / 2]] None)
   \<and> spec_Y_pred 2 [[1, 0], [0, 1]] [[1, 0], [0, 1]] [[1, 0], [0, 1]] = [[1 / 2, 0], [0, 1 / 2]]"
  using predict_info_matrix_recursion [OF ex_predict [of None]] ex_predict [of None]
  by (simp add: ex_predictor_def ex_tm_def ex_prior_def transition_matrix_def
      predict_over_interval_def second_moment_def is_information_def)

section \<open>Which matrix the recursion starts from\<close>

text \<open>
  Claim C3. The matrix \<open>Y\<close> of the recursion is the prior's \<open>info_matrix\<close> when the
  prior is an instance of one of the information-form classes, and the prior's \<open>covar\<close>,
  taken as it is and not inverted, for a covariance-form prior: whenever \<open>predict\<close>
  returns, both fields of the result are the recursion's values for that \<open>Y\<close>.
\<close>

theorem predict_second_moment_selection:
  assumes "predict P prior ts kw = Inr est"
  shows "est = InformationStatePrediction
                 (code_y_pred (ndim_state (transition_model P))
                    (tm_matrix (transition_model P) (Some prior)
                       (predict_over_interval prior ts) kw)
                    (tm_covar (transition_model P) (predict_over_interval prior ts) kw)
                    (case prior of
                       InformationState _ Y _ \<Rightarrow> Y
                     | InformationStatePrediction _ Y _ \<Rightarrow> Y
                     | InformationStateUpdate _ Y _ \<Rightarrow> Y
                     | GaussianState _ C _ \<Rightarrow> C)
                    (state_vector prior) (control_input (control_model P)))
                 (spec_Y_pred (ndim_state (transition_model P))
                    (tm_matrix (transition_model P) (Some prior)
                       (predict_over_interval prior ts) kw)
                    (tm_covar (transition_model P) (predict_over_interval prior ts) kw)
                    (case prior of
                       InformationState _ Y _ \<Rightarrow> Y
                     | InformationStatePrediction _ Y _ \<Rightarrow> Y
                     | InformationStateUpdate _ Y _ \<Rightarrow> Y
                     | GaussianState _ C _ \<Rightarrow> C))
                 ts"
proof -
  have "second_moment prior =
          (case prior of
             InformationState _ Y _ \<Rightarrow> Y
           | InformationStatePrediction _ Y _ \<Rightarrow> Y
           | InformationStateUpdate _ Y _ \<Rightarrow> Y
           | GaussianState _ C _ \<Rightarrow> C)"
    by (cases prior) (simp_all add: second_moment_def is_information_def)
  with predict_Inr_fields [OF assms] show ?thesis
    by (simp add: transition_matrix_def)
qed

theorem predict_second_moment_selection_witness:
  "predict ex_predictor ex_prior_gauss None ()
     = Inr (InformationStatePrediction [[1 / 2], [1]] [[1 / 2, 0], [0, 1 / 2]] None)
   \<and> InformationStatePrediction [[1 / 2], [1]] [[1 / 2, 0], [0, 1 / 2]] None
     = InformationStatePrediction
         (code_y_pred 2 [[1, 0], [0, 1]] [[1, 0], [0, 1]] [[1, 0], [0, 1]] [[1], [0]]
            (np_zeros 2 1))
         (spec_Y_pred 2 [[1, 0], [0, 1]] [[1, 0], [0, 1]] [[1, 0], [0, 1]]) None"
  using predict_second_moment_selection [OF ex_predict_gauss [of None]]
    ex_predict_gauss [of None]
  by (simp add: ex_predictor_def ex_tm_def ex_prior_gauss_def predict_over_interval_def
      control_input_def LinearControlModel_def)

section \<open>No control model\<close>

text \<open>
  Claim C4. Constructed without a control model, the predictor holds the zero-effect
  model \<open>LinearControlModel(n, [], zeros(n, 1), zeros(n, n), zeros(n, n))\<close> with \<open>n\<close> the
  transition model's \<open>ndim_state\<close>: its control matrix, control input and control noise
  are all zero. For every prior, timestamp and keyword arguments \<open>predict\<close> then gives
  what it gives for a predictor constructed with any control model \<open>c\<close> whose control
  matrix, control input and control noise are those zeros.
\<close>

theorem no_control_model_is_zero_effect:
  assumes "cm_matrix c = np_zeros (ndim_state tm) (ndim_state tm)"
    and "control_input c = np_zeros (ndim_state tm) 1"
    and "control_noise c = np_zeros (ndim_state tm) (ndim_state tm)"
  shows "InfoFilterPredictor_init (Some tm) None
           = Inr \<lparr>transition_model = tm,
                  control_model = LinearControlModel (ndim_state tm) []
                    (np_zeros (ndim_state tm) 1) (np_zeros (ndim_state tm) (ndim_state tm))
                    (np_zeros (ndim_state tm) (ndim_state tm))\<rparr>
         \<and> cm_matrix (LinearControlModel (ndim_state tm) []
                    (np_zeros (ndim_state tm) 1) (np_zeros (ndim_state tm) (ndim_state tm))
                    (np_zeros (ndim_state tm) (ndim_state tm)))
             = np_zeros (ndim_state tm) (ndim_state tm)
         \<and> control_input (LinearControlModel (ndim_state tm) []
                    (np_zeros (ndim_state tm) 1) (np_zeros (ndim_state tm) (ndim_state tm))
                    (np_zeros (ndim_state tm) (ndim_state tm)))
             = np_zeros (ndim_state tm) 1
         \<and> control_noise (LinearControlModel (ndim_state tm) []
                    (np_zeros (ndim_state tm) 1) (np_zeros (ndim_state tm) (ndim_state tm))
                    (np_zeros (ndim_state tm) (ndim_state tm)))
             = np_zeros (ndim_state tm) (ndim_state tm)
         \<and> InfoFilterPredictor_init (Some tm) (Some c)
             = Inr \<lparr>transition_model = tm, control_model = c\<rparr>
         \<and> predict \<lparr>transition_model = tm,
                     control_model = LinearControlModel (ndim_state tm) []
                       (np_zeros (ndim_state tm) 1) (np_zeros (ndim_state tm) (ndim_state tm))
                       (np_zeros (ndim_state tm) (ndim_state tm))\<rparr> prior ts kw
             = predict \<lparr>transition_model = tm, control_model = c\<rparr> prior ts kw"
proof -
  let ?z = "LinearControlModel (ndim_state tm) [] (np_zeros (ndim_state tm) 1)
              (np_zeros (ndim_state tm) (ndim_state tm))
              (np_zeros (ndim_state tm) (ndim_state tm))"
  have z: "cm_matrix ?z = np_zeros (ndim_state tm) (ndim_state tm)"
    "control_input ?z = np_zeros (ndim_state tm) 1"
    "control_noise ?z = np_zeros (ndim_state tm) (ndim_state tm)"
    by (simp_all add: cm_matrix_def control_input_def LinearControlModel_def)
  have i0: "InfoFilterPredictor_init (Some tm) None
              = Inr \<lparr>transition_model = tm, control_model = ?z\<rparr>"
    by (simp add: InfoFilterPredictor_init_def Base_init_def bindE_def Let_def)
  have ic: "InfoFilterPredictor_init (Some tm) (Some c)
              = Inr \<lparr>transition_model = tm, control_model = c\<rparr>"
    by (simp add: InfoFilterPredictor_init_def Base_init_def bindE_def)
  have p: "predict \<lparr>transition_model = tm, control_model = ?z\<rparr> prior ts kw
             = predict \<lparr>transition_model = tm, control_model = c\<rparr> prior ts kw"
    by (rule predict_cong) (simp_all only: predictor.simps z assms)
  from z i0 ic p show ?thesis
    by (intro conjI)
qed

theorem no_control_model_is_zero_effect_witness:
  "cm_matrix ex_zero_control = np_zeros 2 2
   \<and> control_input ex_zero_control = np_zeros 2 1
   \<and> control_noise ex_zero_control = np_zeros 2 2
   \<and> InfoFilterPredictor_init (Some ex_tm) None = Inr ex_predictor
   \<and> predict ex_predictor ex_prior None ()
       = predict \<lparr>transition_model = ex_tm, control_model = ex_zero_control\<rparr> ex_prior None ()"
  using no_control_model_is_zero_effect [of ex_zero_control ex_tm ex_prior None "()"]
  by (simp add: ex_zero_control_def ex_predictor_def ex_tm_def cm_matrix_def control_input_def
      LinearControlModel_def)

section \<open>A prior of the wrong dimension\<close>




section \<open>Construction without a transition model\<close>

text \<open>
  Claim C9. Constructing the predictor with no transition model fails with
  \<open>ConfigurationError\<close>, whether or not a control model is given: the exception is that
  of the base constructor, taken as the specification describes it, and lines 55 to 62,
  which would read \<open>ndim_state\<close> of the missing model, are not reached.
\<close>

theorem no_transition_model_configuration_error:
  "InfoFilterPredictor_init None cm = Inl ConfigurationError"
  by (simp add: InfoFilterPredictor_init_def Base_init_def bindE_def)

section \<open>Constructing a particle clears the parent's parent\<close>

lemma parent_clear_parent: "p < length h \<Longrightarrow> parent (clear_parent p h ! p) = None"
  by (simp add: clear_parent_def split: particle_object.split)

lemma length_clear_parent: "length (clear_parent p h) = length h"
  by (simp add: clear_parent_def)

text \<open>
  Claim C10. A constructor call of \<open>Particle\<close> or of \<open>MultiModelParticle\<close> with a parent
  sets the \<open>parent\<close> attribute of that parent object to \<open>None\<close>, whether or not the call
  then succeeds; when it succeeds, the new object is a fresh one that holds the reference
  to the parent.
\<close>

theorem particle_init_clears_parent_of_parent:
  assumes "p < length h"
  shows "parent (snd (Particle_init conv sv w (Some p) h) ! p) = None
         \<and> parent (snd (MultiModelParticle_init conv sv w d (Some p) h) ! p) = None
         \<and> (Particle_init conv sv w (Some p) h = (Inr a, h')
              \<longrightarrow> a = length h \<and> parent (h' ! a) = Some p \<and> parent (h' ! p) = None)
         \<and> (MultiModelParticle_init conv sv w d (Some p) h = (Inr a, h')
              \<longrightarrow> a = length h \<and> parent (h' ! a) = Some p \<and> parent (h' ! p) = None)"
  using assms
  by (auto simp: Particle_init_def MultiModelParticle_init_def Let_def nth_append
      parent_clear_parent length_clear_parent split: sum.splits)

theorem particle_init_clears_parent_of_parent_witness:
  "(1::nat) < length ex_particles
   \<and> parent (ex_particles ! 1) = Some 0
   \<and> Particle_init Inr (SvStateVector [[2]]) 1 (Some 1) ex_particles
       = (Inr 2, [Particle (Some [[0]]) 1 None, Particle (Some [[1]]) (1 / 2) None,
                  Particle (Some [[2]]) 1 (Some 1)])
   \<and> parent (snd (Particle_init Inr (SvStateVector [[2]]) 1 (Some 1) ex_particles) ! 1) = None"
proof -
  have l: "(1::nat) < length ex_particles"
    by (simp add: ex_particles_def)
  have e: "Particle_init Inr (SvStateVector [[2]]) 1 (Some 1) ex_particles
             = (Inr 2, [Particle (Some [[0]]) 1 None, Particle (Some [[1]]) (1 / 2) None,
                        Particle (Some [[2]]) 1 (Some 1)])"
    by (simp add: Particle_init_def as_state_vector_def clear_parent_def ex_particles_def)
  have q: "parent (ex_particles ! 1) = Some 0"
    by (simp add: ex_particles_def)
  from particle_init_clears_parent_of_parent [OF l]
  have "parent (snd (Particle_init Inr (SvStateVector [[2]]) 1 (Some 1) ex_particles) ! 1)
          = None"
    by blast
  with l q e show ?thesis
    by (intro conjI)
qed


section \<open>The body only adds cells\<close>

lemma extends_refl: "extends h h"
  by (simp add: extends_def)

lemma extends_append: "extends h (h @ xs)"
  by (simp add: extends_def)

lemma extends_length:
  assumes "extends h h'"
  shows "length h \<le> length h'"
proof -
  have "length (take (length h) h') = length h"
    using assms by (simp only: extends_def)
  then show ?thesis
    by (simp add: min_def split: if_splits)
qed

lemma extends_trans:
  assumes "extends h h1" and "extends h1 h2"
  shows "extends h h2"
proof -
  have l: "length h \<le> length h1"
    by (rule extends_length [OF assms(1)])
  have "take (length h) h2 = take (length h) (take (length h1) h2)"
    using l by (simp add: min_def)
  also have "\<dots> = take (length h) h1"
    using assms(2) by (simp add: extends_def)
  also have "\<dots> = h"
    using assms(1) by (simp add: extends_def)
  finally show ?thesis
    by (simp add: extends_def)
qed

lemma extends_nth:
  assumes "extends h h'" and "a < length h"
  shows "h' ! a = h ! a"
proof -
  have "take (length h) h' ! a = h' ! a"
    using assms(2) by (rule nth_take)
  with assms(1) show ?thesis
    by (simp only: extends_def)
qed

lemma allocates_grows: "allocates m \<Longrightarrow> grows m"
  by (simp add: allocates_def grows_def)

lemma allocates_new_array: "allocates (new_array A)"
  by (simp add: allocates_def new_array_def extends_append)

lemma grows_new_array: "grows (new_array A)"
  by (rule allocates_grows [OF allocates_new_array])

lemma new_result_cases:
  "new_result r h = (q, h') \<Longrightarrow>
     (\<exists>e. r = Inl e \<and> q = Inl e \<and> h' = h)
     \<or> (\<exists>A. r = Inr A \<and> q = Inr (ARef (length h) False) \<and> h' = h @ [Buffer A])"
  by (cases r) (auto simp: new_result_def new_array_def)

lemma allocates_matmul_h: "allocates (matmul_h a b)"
  by (auto simp: allocates_def matmul_h_def extends_refl extends_append
      dest!: new_result_cases)

lemma allocates_add_h: "allocates (add_h a b)"
  by (auto simp: allocates_def add_h_def extends_refl extends_append
      dest!: new_result_cases)

lemma allocates_sub_h: "allocates (sub_h a b)"
  by (auto simp: allocates_def sub_h_def extends_refl extends_append
      dest!: new_result_cases)

lemma allocates_inv_h: "allocates (inv_h a)"
  by (auto simp: allocates_def inv_h_def extends_refl extends_append
      dest!: new_result_cases)

lemma bindH_cases:
  "bindH m f h = (r, h') \<Longrightarrow>
     (\<exists>e. m h = (Inl e, h') \<and> r = Inl e)
     \<or> (\<exists>x h1. m h = (Inr x, h1) \<and> f x h1 = (r, h'))"
  by (auto simp: bindH_def split: prod.splits sum.splits)

lemma bindH_assoc: "bindH (bindH m f) g = bindH m (\<lambda>x. bindH (f x) g)"
  by (rule ext) (simp add: bindH_def split: prod.splits sum.splits)

lemma bindH_returnH: "bindH (returnH x) f = f x"
  by (rule ext) (simp add: bindH_def returnH_def)

lemma grows_bindH:
  assumes "grows m" and "\<And>x. grows (f x)"
  shows "grows (bindH m f)"
  unfolding grows_def
proof (intro allI impI)
  fix h r h' assume run: "bindH m f h = (r, h')"
  from bindH_cases [OF run] consider e where "m h = (Inl e, h')"
    | x h1 where "m h = (Inr x, h1)" "f x h1 = (r, h')"
    by blast
  then show "extends h h'"
  proof cases
    case 1
    with assms(1) show ?thesis
      by (auto simp: grows_def)
  next
    case 2
    with assms have "extends h h1" and "extends h1 h'"
      by (auto simp: grows_def)
    then show ?thesis
      by (rule extends_trans)
  qed
qed

lemma allocates_bindH:
  assumes "grows m" and "\<And>x. allocates (f x)"
  shows "allocates (bindH m f)"
  unfolding allocates_def
proof (intro allI impI)
  fix h r h' assume run: "bindH m f h = (r, h')"
  from bindH_cases [OF run] consider e where "m h = (Inl e, h')" "r = Inl e"
    | x h1 where "m h = (Inr x, h1)" "f x h1 = (r, h')"
    by blast
  then show "extends h h'
             \<and> (\<forall>x. r = Inr x \<longrightarrow> length h \<le> buffer x \<and> buffer x < length h')"
  proof cases
    case 1
    with assms(1) show ?thesis
      by (auto simp: grows_def)
  next
    case 2
    from 2(1) assms(1) have a: "extends h h1"
      by (auto simp: grows_def)
    from 2(2) assms(2) have b: "extends h1 h'"
      and c: "\<forall>x. r = Inr x \<longrightarrow> length h1 \<le> buffer x \<and> buffer x < length h'"
      by (auto simp: allocates_def)
    from extends_trans [OF a b] extends_length [OF a] c show ?thesis
      by auto
  qed
qed

lemmas allocates_ops = allocates_matmul_h allocates_add_h allocates_sub_h allocates_inv_h
  allocates_new_array

lemmas grows_ops = allocates_ops [THEN allocates_grows]

lemma allocates_p_pred_h: "allocates (p_pred_h F X Q B Qc)"
  unfolding p_pred_h_def by (intro allocates_bindH grows_ops allocates_ops)

lemma allocates_compute_M_h: "allocates (compute_M_h F Y)"
  unfolding compute_M_h_def by (intro allocates_bindH grows_ops allocates_ops)

lemma allocates_compute_Sigma_h: "allocates (compute_Sigma_h G M Q)"
  unfolding compute_Sigma_h_def by (intro allocates_bindH grows_ops allocates_ops)

lemma allocates_compute_Omega_h: "allocates (compute_Omega_h M G S)"
  unfolding compute_Omega_h_def by (intro allocates_bindH grows_ops allocates_ops)

lemma allocates_compute_Y_pred_h: "allocates (compute_Y_pred_h M W S)"
  unfolding compute_Y_pred_h_def by (intro allocates_bindH grows_ops allocates_ops)

lemma allocates_compute_y_pred_h: "allocates (compute_y_pred_h n W G F y Y u)"
  unfolding compute_y_pred_h_def by (intro allocates_bindH grows_ops allocates_ops)

lemmas grows_stages = allocates_p_pred_h [THEN allocates_grows]
  allocates_compute_M_h [THEN allocates_grows] allocates_compute_Sigma_h [THEN allocates_grows]
  allocates_compute_Omega_h [THEN allocates_grows]
  allocates_compute_Y_pred_h [THEN allocates_grows]
  allocates_compute_y_pred_h [THEN allocates_grows]

lemma fresh_estimate_finish:
  "fresh_estimate ts
     (bindH (compute_Y_pred_h M W S) (\<lambda>Yp.
      bindH (compute_y_pred_h n W G F y Y u) (\<lambda>yp.
      new_estimate CInformationStatePrediction yp Yp ts)))"
  unfolding fresh_estimate_def
proof (intro allI impI)
  fix h r h'
  assume run: "bindH (compute_Y_pred_h M W S) (\<lambda>Yp.
                 bindH (compute_y_pred_h n W G F y Y u) (\<lambda>yp.
                 new_estimate CInformationStatePrediction yp Yp ts)) h = (r, h')"
  let ?goal = "extends h h'
        \<and> (\<forall>a. r = Inr a \<longrightarrow>
              length h \<le> a \<and> a < length h'
              \<and> h' ! a = EstimateObject CInformationStatePrediction (vector_ref (h' ! a))
                           (matrix_ref (h' ! a)) ts
              \<and> length h \<le> buffer (vector_ref (h' ! a))
              \<and> buffer (vector_ref (h' ! a)) < length h'
              \<and> length h \<le> buffer (matrix_ref (h' ! a))
              \<and> buffer (matrix_ref (h' ! a)) < length h')"
  from bindH_cases [OF run]
  consider e where "compute_Y_pred_h M W S h = (Inl e, h')" "r = Inl e"
    | Yp h1 where "compute_Y_pred_h M W S h = (Inr Yp, h1)"
        "bindH (compute_y_pred_h n W G F y Y u)
           (\<lambda>yp. new_estimate CInformationStatePrediction yp Yp ts) h1 = (r, h')"
    by blast
  then show ?goal
  proof cases
    case 1
    with allocates_compute_Y_pred_h [of M W S] show ?thesis
      by (auto simp: allocates_def)
  next
    case 2
    from 2(1) allocates_compute_Y_pred_h [of M W S]
    have e1: "extends h h1" and Yp: "length h \<le> buffer Yp" "buffer Yp < length h1"
      by (auto simp: allocates_def)
    from bindH_cases [OF 2(2)]
    consider e where "compute_y_pred_h n W G F y Y u h1 = (Inl e, h')" "r = Inl e"
      | yp h2 where "compute_y_pred_h n W G F y Y u h1 = (Inr yp, h2)"
          "new_estimate CInformationStatePrediction yp Yp ts h2 = (r, h')"
      by blast
    then show ?thesis
    proof cases
      case 1
      with allocates_compute_y_pred_h [of n W G F y Y u] have "extends h1 h'"
        by (auto simp: allocates_def)
      with e1 1 show ?thesis
        by (auto intro: extends_trans)
    next
      case 2
      from 2(1) allocates_compute_y_pred_h [of n W G F y Y u]
      have e2: "extends h1 h2" and yp: "length h1 \<le> buffer yp" "buffer yp < length h2"
        by (auto simp: allocates_def)
      from 2(2) have r: "r = Inr (length h2)"
        and h': "h' = h2 @ [EstimateObject CInformationStatePrediction yp Yp ts]"
        by (auto simp: new_estimate_def)
      have l1: "length h \<le> length h1" and l2: "length h1 \<le> length h2"
        using e1 e2 by (auto dest: extends_length)
      have "extends h h'"
        unfolding h' by (rule extends_trans [OF extends_trans [OF e1 e2] extends_append])
      with r h' Yp yp l1 l2 show ?thesis
        by auto
    qed
  qed
qed

lemma fresh_estimate_bindH:
  assumes "grows m" and "\<And>x. fresh_estimate ts (f x)"
  shows "fresh_estimate ts (bindH m f)"
  unfolding fresh_estimate_def
proof (intro allI impI)
  fix h r h' assume run: "bindH m f h = (r, h')"
  from bindH_cases [OF run] consider e where "m h = (Inl e, h')" "r = Inl e"
    | x h1 where "m h = (Inr x, h1)" "f x h1 = (r, h')"
    by blast
  then show "extends h h'
        \<and> (\<forall>a. r = Inr a \<longrightarrow>
              length h \<le> a \<and> a < length h'
              \<and> h' ! a = EstimateObject CInformationStatePrediction (vector_ref (h' ! a))
                           (matrix_ref (h' ! a)) ts
              \<and> length h \<le> buffer (vector_ref (h' ! a))
              \<and> buffer (vector_ref (h' ! a)) < length h'
              \<and> length h \<le> buffer (matrix_ref (h' ! a))
              \<and> buffer (matrix_ref (h' ! a)) < length h')"
  proof cases
    case 1
    with assms(1) show ?thesis
      by (auto simp: grows_def)
  next
    case 2
    from 2(1) assms(1) have a: "extends h h1"
      by (auto simp: grows_def)
    note l = extends_length [OF a]
    from 2(2) assms(2) [of x] have b: "extends h1 h'"
      and c: "\<forall>a. r = Inr a \<longrightarrow>
              length h1 \<le> a \<and> a < length h'
              \<and> h' ! a = EstimateObject CInformationStatePrediction (vector_ref (h' ! a))
                           (matrix_ref (h' ! a)) ts
              \<and> length h1 \<le> buffer (vector_ref (h' ! a))
              \<and> buffer (vector_ref (h' ! a)) < length h'
              \<and> length h1 \<le> buffer (matrix_ref (h' ! a))
              \<and> buffer (matrix_ref (h' ! a)) < length h'"
      unfolding fresh_estimate_def by blast+
    from extends_trans [OF a b] l c show ?thesis
      by (metis le_trans)
  qed
qed

lemma fresh_estimate_predict_h:
  assumes "predict_h tm cm p ts kw h = (r, h')"
  shows "extends h h'"
    and "r = Inr a \<Longrightarrow>
           length h \<le> a \<and> a < length h'
           \<and> h' ! a = EstimateObject CInformationStatePrediction (vector_ref (h' ! a))
                        (matrix_ref (h' ! a)) ts
           \<and> length h \<le> buffer (vector_ref (h' ! a))
           \<and> buffer (vector_ref (h' ! a)) < length h'
           \<and> length h \<le> buffer (matrix_ref (h' ! a))
           \<and> buffer (matrix_ref (h' ! a)) < length h'"
proof -
  define prior where "prior = est_value h (h ! p)"
  define dt where "dt = predict_over_interval prior ts"
  define y where "y = vector_ref (h ! p)"
  define Y where "Y = matrix_ref (h ! p)"
  define m where "m =
     bindH (new_array (tm_matrix tm None dt kw)) (\<lambda>F0.
     bindH (matmul_h F0 y) (\<lambda>fx.
     bindH (add_h fx (control_vector_h cm)) (\<lambda>x_pred.
     bindH (new_array (tm_matrix tm (Some prior) dt kw)) (\<lambda>F.
     bindH (new_array (tm_covar tm dt kw)) (\<lambda>Q.
     bindH (p_pred_h F Y Q (control_matrix_h cm) (control_noise_h cm)) (\<lambda>pp.
     bindH (new_array (np_identity (ndim_state tm))) (\<lambda>G.
     bindH (compute_M_h F Y) (\<lambda>M.
     bindH (compute_Sigma_h G M Q) (\<lambda>Sgm.
     bindH (compute_Omega_h M G Sgm) (\<lambda>Omega.
     bindH (compute_Y_pred_h M Omega Sgm) (\<lambda>Y_pred.
     bindH (compute_y_pred_h (ndim tm) Omega G F y Y (control_vector_h cm)) (\<lambda>y_pred.
     new_estimate CInformationStatePrediction y_pred Y_pred ts))))))))))))"
  have "fresh_estimate ts m"
    unfolding m_def
    by (intro fresh_estimate_bindH fresh_estimate_finish grows_ops grows_stages)
  moreover have "m h = (r, h')"
    using assms
    by (simp add: predict_h_def x_pred_h_def models_h_def recursion_h_def bindH_assoc
        bindH_returnH Let_def m_def prior_def dt_def y_def Y_def)
  ultimately have *: "extends h h'
        \<and> (\<forall>a. r = Inr a \<longrightarrow>
              length h \<le> a \<and> a < length h'
              \<and> h' ! a = EstimateObject CInformationStatePrediction (vector_ref (h' ! a))
                           (matrix_ref (h' ! a)) ts
              \<and> length h \<le> buffer (vector_ref (h' ! a))
              \<and> buffer (vector_ref (h' ! a)) < length h'
              \<and> length h \<le> buffer (matrix_ref (h' ! a))
              \<and> buffer (matrix_ref (h' ! a)) < length h')"
    unfolding fresh_estimate_def by blast
  from * show "extends h h'"
    by blast
  from * show "r = Inr a \<Longrightarrow>
           length h \<le> a \<and> a < length h'
           \<and> h' ! a = EstimateObject CInformationStatePrediction (vector_ref (h' ! a))
                        (matrix_ref (h' ! a)) ts
           \<and> length h \<le> buffer (vector_ref (h' ! a))
           \<and> buffer (vector_ref (h' ! a)) < length h'
           \<and> length h \<le> buffer (matrix_ref (h' ! a))
           \<and> buffer (matrix_ref (h' ! a)) < length h'"
    by blast
qed

lemmas heap_defs = predict_h_def predict_body_def x_pred_h_def models_h_def returnH_def
  recursion_h_def bindH_def new_array_def new_result_def transpose_h_def
  matmul_h_def add_h_def sub_h_def inv_h_def new_estimate_def read_array_def est_value_def
  p_pred_h_def compute_M_h_def compute_Sigma_h_def compute_Omega_h_def compute_Y_pred_h_def
  compute_y_pred_h_def

lemma ex_predict_h:
  "predict_h ex_tm ex_control_h 5 None () ex_heap = (Inr 40, ex_heap_after)"
  by (simp add: heap_defs ex_heap_after_def ex_heap_def ex_control_h_def ex_tm_def
      predict_over_interval_def ndim_def np_defs Let_def eval_nat_numeral)

text \<open>
  On the example the two models of \<open>predict\<close> agree: the object made in the store
  holds the estimate that the value model returns.
\<close>

lemma ex_predict_h_value:
  "est_value ex_heap_after (ex_heap_after ! 40)
     = InformationStatePrediction [[1 / 2], [1]] [[1 / 2, 0], [0, 1 / 2]] None
   \<and> predict ex_predictor (est_value ex_heap (ex_heap ! 5)) None ()
     = Inr (est_value ex_heap_after (ex_heap_after ! 40))"
proof -
  have a: "est_value ex_heap_after (ex_heap_after ! 40)
             = InformationStatePrediction [[1 / 2], [1]] [[1 / 2, 0], [0, 1 / 2]] None"
    by (simp add: est_value_def read_array_def ex_heap_after_def ex_heap_def
        eval_nat_numeral)
  have b: "est_value ex_heap (ex_heap ! 5) = ex_prior"
    by (simp add: est_value_def read_array_def ex_heap_def ex_prior_def eval_nat_numeral)
  from a b ex_predict [of None] show ?thesis
    by simp
qed

section \<open>The store model computes what the value model computes\<close>

lemma known_extends:
  assumes "extends h h'" and "known h r A"
  shows "known h' r A"
proof -
  from assms(2) have b: "buffer r < length h" and a: "read_array h r = A"
    by (simp_all add: known_def)
  from extends_nth [OF assms(1) b] a have "read_array h' r = A"
    by (auto simp: read_array_def split: if_splits)
  with extends_length [OF assms(1)] b show ?thesis
    by (simp add: known_def)
qed

lemma known_transpose:
  "known h r A \<Longrightarrow> \<not> transposed r \<Longrightarrow> known h (transpose_h r) (np_transpose A)"
  by (auto simp: known_def read_array_def transpose_h_def)

lemma known_new: "known (h @ [Buffer A]) (ARef (length h) False) A"
  by (simp add: known_def read_array_def)

lemma sim_new_result:
  "sim (new_result v) v h"
  by (cases v) (auto simp: sim_def new_result_def new_array_def extends_refl extends_append
      known_new)

lemma sim_matmul_h: "known h a A \<Longrightarrow> known h b B \<Longrightarrow> sim (matmul_h a b) (np_matmul A B) h"
  using sim_new_result [of "np_matmul A B" h]
  by (simp add: sim_def matmul_h_def known_def)

lemma sim_add_h: "known h a A \<Longrightarrow> known h b B \<Longrightarrow> sim (add_h a b) (np_add A B) h"
  using sim_new_result [of "np_add A B" h]
  by (simp add: sim_def add_h_def known_def)

lemma sim_sub_h: "known h a A \<Longrightarrow> known h b B \<Longrightarrow> sim (sub_h a b) (np_sub A B) h"
  using sim_new_result [of "np_sub A B" h]
  by (simp add: sim_def sub_h_def known_def)

lemma sim_inv_h: "known h a A \<Longrightarrow> sim (inv_h a) (linalg_inv A) h"
  using sim_new_result [of "linalg_inv A" h]
  by (simp add: sim_def inv_h_def known_def)

lemma sim_bindH:
  assumes "sim m v h"
    and "\<And>x h1 A. v = Inr A \<Longrightarrow> extends h h1 \<Longrightarrow> known h1 x A \<Longrightarrow> \<not> transposed x
           \<Longrightarrow> sim (f x) (g A) h1"
  shows "sim (bindH m f) (bindE v g) h"
  unfolding sim_def
proof (intro allI impI)
  fix r h' assume run: "bindH m f h = (r, h')"
  obtain r1 h1 where m: "m h = (r1, h1)"
    by (cases "m h") auto
  from assms(1) m have e1: "extends h h1"
    and c1: "case v of Inl e \<Rightarrow> r1 = Inl e
             | Inr A \<Rightarrow> (\<exists>x. r1 = Inr x \<and> known h1 x A \<and> \<not> transposed x)"
    unfolding sim_def by blast+
  show "extends h h'
        \<and> (case bindE v g of
              Inl e \<Rightarrow> r = Inl e
            | Inr A \<Rightarrow> (\<exists>x. r = Inr x \<and> known h' x A \<and> \<not> transposed x))"
  proof (cases v)
    case (Inl e)
    with c1 have "r1 = Inl e"
      by simp
    with run m have "r = Inl e" "h' = h1"
      by (simp_all add: bindH_def)
    with e1 Inl show ?thesis
      by (simp add: bindE_def)
  next
    case (Inr A)
    with c1 obtain x where x: "r1 = Inr x" "known h1 x A" "\<not> transposed x"
      by auto
    from run m x(1) have "f x h1 = (r, h')"
      by (simp add: bindH_def)
    with assms(2) [OF Inr e1 x(2) x(3)] have "extends h1 h'"
      and "case g A of Inl e \<Rightarrow> r = Inl e
           | Inr B \<Rightarrow> (\<exists>y. r = Inr y \<and> known h' y B \<and> \<not> transposed y)"
      unfolding sim_def by blast+
    with e1 Inr show ?thesis
      by (simp add: bindE_def extends_trans)
  qed
qed

lemma sim_new_array_then:
  assumes "\<And>x h1. extends h h1 \<Longrightarrow> known h1 x A \<Longrightarrow> \<not> transposed x \<Longrightarrow> sim (f x) v h1"
  shows "sim (bindH (new_array A) f) v h"
proof -
  have "sim (new_array A) (Inr A) h"
    using sim_new_result [of "Inr A" h] by (simp add: new_result_def sim_def)
  then have "sim (bindH (new_array A) f) (bindE (Inr A) (\<lambda>_. v)) h"
    by (rule sim_bindH) (simp add: assms)
  then show ?thesis
    by (simp add: bindE_def)
qed

lemma sim_compute_M_h:
  assumes "known h F Fv" "\<not> transposed F" "known h Y Yv"
  shows "sim (compute_M_h F Y) (compute_M Fv Yv) h"
  unfolding compute_M_h_def compute_M_def
  apply (insert assms)
  apply (rule sim_bindH sim_matmul_h sim_add_h sim_sub_h sim_inv_h
      | blast intro: known_extends known_transpose)+
  done

lemma sim_p_pred_h:
  assumes "known h F Fv" "\<not> transposed F" "known h X Xv" "known h Q Qv" "known h B Bv"
    "\<not> transposed B" "known h Qc Qcv"
  shows "sim (p_pred_h F X Q B Qc) (p_pred Fv Xv Qv Bv Qcv) h"
  unfolding p_pred_h_def p_pred_def
  apply (insert assms)
  apply (rule sim_bindH sim_matmul_h sim_add_h sim_sub_h sim_inv_h
      | blast intro: known_extends known_transpose)+
  done

lemma sim_compute_Sigma_h:
  assumes "known h G Gv" "known h M Mv" "known h Q Qv"
  shows "sim (compute_Sigma_h G M Q) (compute_Sigma Gv Mv Qv) h"
  unfolding compute_Sigma_h_def compute_Sigma_def
  apply (insert assms)
  apply (rule sim_bindH sim_matmul_h sim_add_h sim_sub_h sim_inv_h
      | blast intro: known_extends known_transpose)+
  done

lemma sim_compute_Omega_h:
  assumes "known h M Mv" "known h G Gv" "known h S Sv"
  shows "sim (compute_Omega_h M G S) (compute_Omega Mv Gv Sv) h"
  unfolding compute_Omega_h_def compute_Omega_def
  apply (insert assms)
  apply (rule sim_bindH sim_matmul_h sim_add_h sim_sub_h sim_inv_h
      | blast intro: known_extends known_transpose)+
  done

lemma sim_compute_Y_pred_h:
  assumes "known h M Mv" "known h W Wv" "\<not> transposed W" "known h S Sv"
  shows "sim (compute_Y_pred_h M W S) (compute_Y_pred Mv Wv Sv) h"
  unfolding compute_Y_pred_h_def compute_Y_pred_def
  apply (insert assms)
  apply (rule sim_bindH sim_matmul_h sim_add_h sim_sub_h sim_inv_h
      | blast intro: known_extends known_transpose)+
  done

lemma sim_compute_y_pred_h:
  assumes "known h W Wv" "known h G Gv" "\<not> transposed G" "known h F Fv" "\<not> transposed F"
    "known h y yv" "known h Y Yv" "known h u uv"
  shows "sim (compute_y_pred_h n W G F y Y u) (compute_y_pred n Wv Gv Fv yv Yv uv) h"
  unfolding compute_y_pred_h_def compute_y_pred_def
  apply (insert assms)
  apply (rule sim_new_array_then sim_bindH sim_matmul_h sim_add_h sim_sub_h sim_inv_h
      | blast intro: known_extends known_transpose)+
  done

lemma sim_est_bindH:
  assumes "sim m v h"
    and "\<And>x h1 A. v = Inr A \<Longrightarrow> extends h h1 \<Longrightarrow> known h1 x A \<Longrightarrow> \<not> transposed x
           \<Longrightarrow> sim_est (f x) (g A) h1"
  shows "sim_est (bindH m f) (bindE v g) h"
  unfolding sim_est_def
proof (intro allI impI)
  fix r h' assume run: "bindH m f h = (r, h')"
  obtain r1 h1 where m: "m h = (r1, h1)"
    by (cases "m h") auto
  from assms(1) m have e1: "extends h h1"
    and c1: "case v of Inl e \<Rightarrow> r1 = Inl e
             | Inr A \<Rightarrow> (\<exists>x. r1 = Inr x \<and> known h1 x A \<and> \<not> transposed x)"
    unfolding sim_def by blast+
  show "case bindE v g of
          Inl e \<Rightarrow> r = Inl e
        | Inr est \<Rightarrow> (\<exists>a. r = Inr a \<and> a < length h' \<and> est_value h' (h' ! a) = est)"
  proof (cases v)
    case (Inl e)
    with c1 have "r1 = Inl e"
      by simp
    with run m have "r = Inl e"
      by (simp add: bindH_def)
    with Inl show ?thesis
      by (simp add: bindE_def)
  next
    case (Inr A)
    with c1 obtain x where x: "r1 = Inr x" "known h1 x A" "\<not> transposed x"
      by auto
    from run m x(1) have "f x h1 = (r, h')"
      by (simp add: bindH_def)
    with assms(2) [OF Inr e1 x(2) x(3)]
    have "case g A of
            Inl e \<Rightarrow> r = Inl e
          | Inr est \<Rightarrow> (\<exists>a. r = Inr a \<and> a < length h' \<and> est_value h' (h' ! a) = est)"
      unfolding sim_est_def by blast
    with Inr show ?thesis
      by (simp add: bindE_def)
  qed
qed

lemma sim_est_new_array_then:
  assumes "\<And>x h1. extends h h1 \<Longrightarrow> known h1 x A \<Longrightarrow> \<not> transposed x \<Longrightarrow> sim_est (f x) v h1"
  shows "sim_est (bindH (new_array A) f) v h"
proof -
  have "sim (new_array A) (Inr A) h"
    using sim_new_result [of "Inr A" h] by (simp add: new_result_def sim_def)
  then have "sim_est (bindH (new_array A) f) (bindE (Inr A) (\<lambda>_. v)) h"
    by (rule sim_est_bindH) (simp add: assms)
  then show ?thesis
    by (simp add: bindE_def)
qed

lemma sim_est_new_estimate:
  assumes "known h yp ypv" and "known h Yp Ypv"
  shows "sim_est (new_estimate CInformationStatePrediction yp Yp ts)
           (Inr (InformationStatePrediction ypv Ypv ts)) h"
proof -
  let ?h' = "h @ [EstimateObject CInformationStatePrediction yp Yp ts]"
  have "known ?h' yp ypv" "known ?h' Yp Ypv"
    using assms by (auto intro: known_extends extends_append)
  then have "est_value ?h' (?h' ! length h) = InformationStatePrediction ypv Ypv ts"
    by (simp add: est_value_def known_def)
  then show ?thesis
    by (simp add: sim_est_def new_estimate_def)
qed

lemma bindE_assoc: "bindE (bindE m f) g = bindE m (\<lambda>x. bindE (f x) g)"
  by (cases m) (simp_all add: bindE_def)

lemma state_vector_est_value: "state_vector (est_value h c) = read_array h (vector_ref c)"
  by (cases "cls c") (simp_all add: est_value_def)

lemma second_moment_est_value: "second_moment (est_value h c) = read_array h (matrix_ref c)"
  by (cases "cls c") (simp_all add: est_value_def second_moment_def is_information_def)

text \<open>
  For a prior object and a control model whose arrays are in the store, \<open>predict\<close> over
  the store raises what \<open>predict\<close> over values raises, and returns the address of an
  object that holds the estimate \<open>predict\<close> over values returns.
\<close>

lemma predict_h_refines_predict:
  assumes y: "buffer (vector_ref (h ! p)) < length h"
    and Y: "buffer (matrix_ref (h ! p)) < length h"
    and u: "buffer (control_vector_h cm) < length h"
    and B: "buffer (control_matrix_h cm) < length h" "\<not> transposed (control_matrix_h cm)"
    and Qc: "buffer (control_noise_h cm) < length h"
  shows "sim_est (predict_h tm cm p ts kw)
           (predict \<lparr>transition_model = tm, control_model = control_model_value h cm\<rparr>
              (est_value h (h ! p)) ts kw) h"
proof -
  define prior where "prior = est_value h (h ! p)"
  define dt where "dt = predict_over_interval prior ts"
  define yr where "yr = vector_ref (h ! p)"
  define Yr where "Yr = matrix_ref (h ! p)"
  define m where "m =
     bindH (new_array (tm_matrix tm None dt kw)) (\<lambda>F0.
     bindH (matmul_h F0 yr) (\<lambda>fx.
     bindH (add_h fx (control_vector_h cm)) (\<lambda>x_pred.
     bindH (new_array (tm_matrix tm (Some prior) dt kw)) (\<lambda>F.
     bindH (new_array (tm_covar tm dt kw)) (\<lambda>Q.
     bindH (p_pred_h F Yr Q (control_matrix_h cm) (control_noise_h cm)) (\<lambda>pp.
     bindH (new_array (np_identity (ndim_state tm))) (\<lambda>G.
     bindH (compute_M_h F Yr) (\<lambda>M.
     bindH (compute_Sigma_h G M Q) (\<lambda>Sgm.
     bindH (compute_Omega_h M G Sgm) (\<lambda>Omega.
     bindH (compute_Y_pred_h M Omega Sgm) (\<lambda>Y_pred.
     bindH (compute_y_pred_h (ndim tm) Omega G F yr Yr (control_vector_h cm)) (\<lambda>y_pred.
     new_estimate CInformationStatePrediction y_pred Y_pred ts))))))))))))"
  define v where "v =
     bindE (np_matmul (tm_matrix tm None dt kw) (read_array h yr)) (\<lambda>fx.
     bindE (np_add fx (read_array h (control_vector_h cm))) (\<lambda>x_pred.
     bindE (p_pred (tm_matrix tm (Some prior) dt kw) (read_array h Yr) (tm_covar tm dt kw)
              (read_array h (control_matrix_h cm)) (read_array h (control_noise_h cm))) (\<lambda>pp.
     bindE (compute_M (tm_matrix tm (Some prior) dt kw) (read_array h Yr)) (\<lambda>M.
     bindE (compute_Sigma (np_identity (ndim_state tm)) M (tm_covar tm dt kw)) (\<lambda>Sgm.
     bindE (compute_Omega M (np_identity (ndim_state tm)) Sgm) (\<lambda>Omega.
     bindE (compute_Y_pred M Omega Sgm) (\<lambda>Y_pred.
     bindE (compute_y_pred (ndim tm) Omega (np_identity (ndim_state tm))
              (tm_matrix tm (Some prior) dt kw) (read_array h yr) (read_array h Yr)
              (read_array h (control_vector_h cm))) (\<lambda>y_pred.
     Inr (InformationStatePrediction y_pred Y_pred ts)))))))))"
  have k: "known h yr (read_array h yr)" "known h Yr (read_array h Yr)"
    "known h (control_vector_h cm) (read_array h (control_vector_h cm))"
    "known h (control_matrix_h cm) (read_array h (control_matrix_h cm))"
    "known h (control_noise_h cm) (read_array h (control_noise_h cm))"
    using y Y u B(1) Qc by (simp_all add: known_def yr_def Yr_def)
  have "sim_est m v h"
    unfolding m_def v_def
    apply (insert k B(2))
    apply (rule sim_est_new_array_then sim_est_bindH sim_est_new_estimate
        sim_matmul_h sim_add_h sim_p_pred_h sim_compute_M_h sim_compute_Sigma_h
        sim_compute_Omega_h sim_compute_Y_pred_h sim_compute_y_pred_h
        | assumption | (rule known_extends, assumption))+
    done
  moreover have "predict_h tm cm p ts kw h = m h"
    by (simp add: predict_h_def x_pred_h_def models_h_def recursion_h_def bindH_assoc
        bindH_returnH Let_def m_def prior_def dt_def yr_def Yr_def)
  moreover have "predict \<lparr>transition_model = tm, control_model = control_model_value h cm\<rparr>
                   (est_value h (h ! p)) ts kw = v"
    unfolding predict_def Let_def x_pred_of_def transition_function_def transition_matrix_def
      noise_transition_matrix_def p_pred_second_moment bindE_assoc
    by (simp add: v_def prior_def dt_def yr_def Yr_def state_vector_est_value
        second_moment_est_value control_model_value_def cm_matrix_def control_input_def
        LinearControlModel_def)
  ultimately show ?thesis
    by (simp add: sim_est_def)
qed


section \<open>The decorated method\<close>

text \<open>
  What the body does to the store and to standard output, and what a call of the
  decorated method does to the cache.
\<close>

lemma predict_body_run:
  assumes "predict_body tm cm p ts kw (h, out) = (r, h', out')"
  shows "predict_h tm cm p ts kw h = (r, h')"
    and "r = Inr a \<Longrightarrow> out' = out @ [est_value h (h ! p)]"
    and "out' = out \<or> out' = out @ [est_value h (h ! p)]"
  using assms
  by (auto simp: predict_body_def predict_h_def Let_def bindH_def
      split: prod.splits sum.splits)

lemma read_array_extends:
  assumes "extends h h'" and "buffer r < length h"
  shows "read_array h' r = read_array h r"
  using extends_nth [OF assms] by (simp add: read_array_def)

lemma valid_est_cell:
  assumes "valid_est h a"
  shows "a < length h" and "buffer (vector_ref (h ! a)) < length h"
    and "buffer (matrix_ref (h ! a)) < length h"
  using assms by (auto simp: valid_est_def split: cell.splits)

lemma est_value_extends:
  assumes "extends h h'" and "buffer (vector_ref c) < length h"
    and "buffer (matrix_ref c) < length h"
  shows "est_value h' c = est_value h c"
  using read_array_extends [OF assms(1,2)] read_array_extends [OF assms(1,3)]
  by (cases "cls c") (simp_all add: est_value_def)

lemma valid_est_extends:
  assumes "extends h h'" and "valid_est h a"
  shows "valid_est h' a" and "h' ! a = h ! a"
    and "est_value h' (h' ! a) = est_value h (h ! a)"
proof -
  note v = valid_est_cell [OF assms(2)]
  show c: "h' ! a = h ! a"
    by (rule extends_nth [OF assms(1) v(1)])
  from assms(2) extends_length [OF assms(1)] c show "valid_est h' a"
    by (auto simp: valid_est_def split: cell.splits)
  from c est_value_extends [OF assms(1) v(2,3)]
  show "est_value h' (h' ! a) = est_value h (h ! a)"
    by simp
qed

lemma valid_control_extends:
  assumes "extends h h'" and "valid_control h cm"
  shows "valid_control h' cm" and "control_model_value h' cm = control_model_value h cm"
proof -
  from assms(2) extends_length [OF assms(1)] show "valid_control h' cm"
    by (auto simp: valid_control_def)
  from assms(2) show "control_model_value h' cm = control_model_value h cm"
    by (simp add: control_model_value_def valid_control_def
        read_array_extends [OF assms(1)])
qed

lemma entry_ok_extends:
  assumes "extends h h'" and "entry_ok predictors h e"
  shows "entry_ok predictors h' e"
proof -
  from assms(2) obtain p ts kw where b: "bind_call (fst e) = Inr (p, ts, kw)"
    by (auto simp: entry_ok_def split: sum.splits)
  from assms(2) b have vp: "valid_est h p" and va: "valid_est h (snd e)"
    and vc: "valid_control h (snd (predictors (self_id (fst e))))"
    and rest: "snd e \<noteq> p" "cls (h ! snd e) = CInformationStatePrediction"
      "stamp (h ! snd e) = ts" "no_shared_buffer (h ! snd e) (h ! p)"
    and val: "predict (predictor_value h (predictors (self_id (fst e))))
                (est_value h (h ! p)) ts kw = Inr (est_value h (h ! snd e))"
    by (simp_all add: entry_ok_def)
  note p = valid_est_extends [OF assms(1) vp]
  note a = valid_est_extends [OF assms(1) va]
  note c = valid_control_extends [OF assms(1) vc]
  have pv: "predictor_value h' (predictors (self_id (fst e)))
              = predictor_value h (predictors (self_id (fst e)))"
    by (simp add: predictor_value_def c(2))
  from b p a c(1) rest val pv show ?thesis
    by (simp add: entry_ok_def)
qed

lemma predict_body_miss:
  assumes vp: "valid_est h p" and vc: "valid_control h cm"
    and run: "predict_body tm cm p ts kw (h, out) = (r, h', out')"
  shows "extends h h'"
    and "r = Inr a \<Longrightarrow>
           length h \<le> a \<and> valid_est h' a \<and> a \<noteq> p
           \<and> cls (h' ! a) = CInformationStatePrediction \<and> stamp (h' ! a) = ts
           \<and> no_shared_buffer (h' ! a) (h' ! p)
           \<and> predict (predictor_value h' (tm, cm)) (est_value h' (h' ! p)) ts kw
               = Inr (est_value h' (h' ! a))
           \<and> out' = out @ [est_value h (h ! p)]"
    and "r = Inl e \<Longrightarrow>
           predict (predictor_value h (tm, cm)) (est_value h (h ! p)) ts kw = Inl e"
proof -
  note h = predict_body_run(1) [OF run]
  note v = valid_est_cell [OF vp]
  show e: "extends h h'"
    by (rule fresh_estimate_predict_h(1) [OF h])
  from vc have c: "buffer (control_vector_h cm) < length h"
    "buffer (control_matrix_h cm) < length h" "\<not> transposed (control_matrix_h cm)"
    "buffer (control_noise_h cm) < length h"
    by (simp_all add: valid_control_def)
  have sim: "sim_est (predict_h tm cm p ts kw)
               (predict (predictor_value h (tm, cm)) (est_value h (h ! p)) ts kw) h"
    unfolding predictor_value_def fst_conv snd_conv
    by (rule predict_h_refines_predict [OF v(2) v(3) c])
  from sim h
  have cases: "case predict (predictor_value h (tm, cm)) (est_value h (h ! p)) ts kw of
                 Inl e \<Rightarrow> r = Inl e
               | Inr est \<Rightarrow> (\<exists>a. r = Inr a \<and> a < length h' \<and> est_value h' (h' ! a) = est)"
    unfolding sim_est_def by blast
  show "predict (predictor_value h (tm, cm)) (est_value h (h ! p)) ts kw = Inl e"
    if "r = Inl e"
    using cases that by (auto split: sum.splits)
  show "length h \<le> a \<and> valid_est h' a \<and> a \<noteq> p
           \<and> cls (h' ! a) = CInformationStatePrediction \<and> stamp (h' ! a) = ts
           \<and> no_shared_buffer (h' ! a) (h' ! p)
           \<and> predict (predictor_value h' (tm, cm)) (est_value h' (h' ! p)) ts kw
               = Inr (est_value h' (h' ! a))
           \<and> out' = out @ [est_value h (h ! p)]"
    if r: "r = Inr a"
  proof -
    note f = fresh_estimate_predict_h(2) [OF h r]
    from f have obj: "h' ! a = EstimateObject CInformationStatePrediction
                                 (vector_ref (h' ! a)) (matrix_ref (h' ! a)) ts"
      by blast
    from f have bounds: "length h \<le> a" "a < length h'"
      "length h \<le> buffer (vector_ref (h' ! a))" "buffer (vector_ref (h' ! a)) < length h'"
      "length h \<le> buffer (matrix_ref (h' ! a))" "buffer (matrix_ref (h' ! a)) < length h'"
      by blast+
    have c1: "cls (h' ! a) = CInformationStatePrediction"
      by (subst obj) simp
    have c2: "stamp (h' ! a) = ts"
      by (subst obj) simp
    have va: "valid_est h' a"
      unfolding valid_est_def using bounds(2,4,6) by (subst obj) simp
    note pp = valid_est_extends [OF e vp]
    have ns: "no_shared_buffer (h' ! a) (h' ! p)"
      using bounds(3,5) v(2,3) by (simp add: no_shared_buffer_def pp(2))
    from cases r
    have val: "predict (predictor_value h (tm, cm)) (est_value h (h ! p)) ts kw
                 = Inr (est_value h' (h' ! a))"
      by (auto split: sum.splits)
    have pv: "predictor_value h' (tm, cm) = predictor_value h (tm, cm)"
      by (simp add: predictor_value_def valid_control_extends(2) [OF e vc])
    from bounds(1) v(1) have ne: "a \<noteq> p"
      by simp
    from bounds(1) va ne c1 c2 ns val pv pp(3) predict_body_run(2) [OF run r]
    show ?thesis
      by simp
  qed
qed

lemma filter_key_absent:
  assumes "map_of xs c = None"
  shows "filter (\<lambda>e. fst e \<noteq> c) (take n xs) = take n xs"
proof -
  from assms have "c \<notin> fst ` set xs"
    by (simp add: map_of_eq_None_iff)
  then have "\<forall>e \<in> set (take n xs). fst e \<noteq> c"
    by (auto dest: in_set_takeD)
  then show ?thesis
    by (simp add: filter_id_conv)
qed

lemma predict_method_hit:
  assumes "map_of (cache s) c = Some a"
  shows "predict_method predictors c s
           = (Inr a, s\<lparr>cache := (c, a) # filter (\<lambda>e. fst e \<noteq> c) (cache s)\<rparr>)"
  using assms by (simp add: predict_method_def)

lemma predict_method_miss:
  assumes "map_of (cache s) c = None" and "bind_call c = Inr (p, ts, kw)"
    and "predict_body (fst (predictors (self_id c))) (snd (predictors (self_id c))) p ts kw
           (store s, stdout s) = (r, h, out)"
  shows "predict_method predictors c s
           = (r, case r of
                   Inl e \<Rightarrow> s\<lparr>store := h, stdout := out\<rparr>
                 | Inr a \<Rightarrow> \<lparr>store = h, cache = take maxsize ((c, a) # cache s),
                              stdout = out\<rparr>)"
  using assms by (cases r) (simp_all add: predict_method_def)

lemma predict_method_unbound:
  assumes "map_of (cache s) c = None" and "bind_call c = Inl e"
  shows "predict_method predictors c s = (Inl e, s)"
  using assms by (simp add: predict_method_def)

lemma take_maxsize_Cons: "take maxsize (x # xs) = x # take 127 xs"
  by (simp add: maxsize_def take_Cons')

lemma predict_method_step:
  assumes ok: "cache_ok predictors s"
    and b: "bind_call c = Inr (p, ts, kw)"
    and vp: "valid_est (store s) p"
    and vc: "valid_control (store s) (snd (predictors (self_id c)))"
    and run: "predict_method predictors c s = (r, s')"
  shows "extends (store s) (store s')"
    and "cache_ok predictors s'"
    and "r = Inr a \<Longrightarrow>
           entry_ok predictors (store s') (c, a)
           \<and> (c, a) # filter (\<lambda>e. fst e \<noteq> c) (cache s') = cache s'
           \<and> ((map_of (cache s) c = Some a \<and> a < length (store s)
                 \<and> store s' = store s \<and> stdout s' = stdout s)
               \<or> (map_of (cache s) c = None \<and> length (store s) \<le> a
                   \<and> stdout s' = stdout s @ [est_value (store s) (store s ! p)]))"
    and "r = Inl e \<Longrightarrow>
           map_of (cache s) c = None \<and> cache s' = cache s
           \<and> predict (predictor_value (store s) (predictors (self_id c)))
                (est_value (store s) (store s ! p)) ts kw = Inl e"
proof -
  let ?goal3 = "\<lambda>a. entry_ok predictors (store s') (c, a)
           \<and> (c, a) # filter (\<lambda>e. fst e \<noteq> c) (cache s') = cache s'
           \<and> ((map_of (cache s) c = Some a \<and> a < length (store s)
                 \<and> store s' = store s \<and> stdout s' = stdout s)
               \<or> (map_of (cache s) c = None \<and> length (store s) \<le> a
                   \<and> stdout s' = stdout s @ [est_value (store s) (store s ! p)]))"
  let ?goal4 = "\<lambda>e. map_of (cache s) c = None \<and> cache s' = cache s
           \<and> predict (predictor_value (store s) (predictors (self_id c)))
                (est_value (store s) (store s ! p)) ts kw = Inl e"
  have all: "extends (store s) (store s') \<and> cache_ok predictors s'
             \<and> (\<forall>a. r = Inr a \<longrightarrow> ?goal3 a) \<and> (\<forall>e. r = Inl e \<longrightarrow> ?goal4 e)"
  proof (cases "map_of (cache s) c")
    case (Some a0)
    from run predict_method_hit [where predictors = predictors, OF Some]
    have r: "r = Inr a0"
      and s': "s' = s\<lparr>cache := (c, a0) # filter (\<lambda>e. fst e \<noteq> c) (cache s)\<rparr>"
      by simp_all
    from Some have mem: "(c, a0) \<in> set (cache s)"
      by (rule map_of_SomeD)
    from ok mem have e0: "entry_ok predictors (store s) (c, a0)"
      by (simp add: cache_ok_def list_all_iff)
    from e0 b have lt: "a0 < length (store s)"
      by (simp add: entry_ok_def valid_est_def)
    from ok e0 have ok': "cache_ok predictors s'"
      by (simp add: s' cache_ok_def list_all_iff)
    have fl: "(c, a0) # filter (\<lambda>e. fst e \<noteq> c) (cache s') = cache s'"
      by (simp add: s')
    from r s' e0 Some lt ok' fl show ?thesis
      by (simp add: extends_refl)
  next
    case None
    obtain r0 h out
      where body: "predict_body (fst (predictors (self_id c))) (snd (predictors (self_id c)))
                     p ts kw (store s, stdout s) = (r0, h, out)"
      by (cases "predict_body (fst (predictors (self_id c))) (snd (predictors (self_id c)))
                   p ts kw (store s, stdout s)") auto
    from run predict_method_miss [where predictors = predictors, OF None b body]
    have r: "r = r0"
      and s': "s' = (case r0 of
                       Inl e \<Rightarrow> s\<lparr>store := h, stdout := out\<rparr>
                     | Inr a \<Rightarrow> \<lparr>store = h, cache = take maxsize ((c, a) # cache s),
                                  stdout = out\<rparr>)"
      by auto
    note m = predict_body_miss [OF vp vc body]
    have st: "store s' = h"
      by (cases r0) (simp_all add: s')
    have ext: "extends (store s) h"
      by (rule m(1))
    from ok have old: "list_all (entry_ok predictors h) (cache s)"
      by (auto simp: cache_ok_def list_all_iff intro: entry_ok_extends [OF ext])
    show ?thesis
    proof (cases r0)
      case (Inl e0)
      from Inl s' have c': "cache s' = cache s"
        by simp
      from old st c' have ok': "cache_ok predictors s'"
        by (simp add: cache_ok_def)
      from m(3) [OF Inl] have "predict (predictor_value (store s) (predictors (self_id c)))
                (est_value (store s) (store s ! p)) ts kw = Inl e0"
        by simp
      with r Inl None c' ok' ext st show ?thesis
        by simp
    next
      case (Inr a0)
      from Inr s' have c': "cache s' = take maxsize ((c, a0) # cache s)"
        and o': "stdout s' = out"
        by simp_all
      from m(2) [OF Inr]
      have n: "length (store s) \<le> a0" "valid_est h a0" "a0 \<noteq> p"
        "cls (h ! a0) = CInformationStatePrediction" "stamp (h ! a0) = ts"
        "no_shared_buffer (h ! a0) (h ! p)"
        "predict (predictor_value h (predictors (self_id c))) (est_value h (h ! p)) ts kw
           = Inr (est_value h (h ! a0))"
        "out = stdout s @ [est_value (store s) (store s ! p)]"
        by simp_all
      from b n valid_est_extends(1) [OF ext vp] valid_control_extends(1) [OF ext vc]
      have new: "entry_ok predictors h (c, a0)"
        by (simp add: entry_ok_def)
      from new old have "list_all (entry_ok predictors h) ((c, a0) # cache s)"
        by simp
      then have "list_all (entry_ok predictors h) (take maxsize ((c, a0) # cache s))"
        unfolding list_all_iff using in_set_takeD by fastforce
      with st c' have ok': "cache_ok predictors s'"
        by (simp add: cache_ok_def)
      have fl: "(c, a0) # filter (\<lambda>e. fst e \<noteq> c) (cache s') = cache s'"
        by (simp add: c' take_maxsize_Cons filter_key_absent [OF None])
      from r Inr None ok' ext st new fl n(1,8) o' show ?thesis
        by simp
    qed
  qed
  from all show "extends (store s) (store s')"
    by blast
  from all show "cache_ok predictors s'"
    by blast
  from all show "r = Inr a \<Longrightarrow> ?goal3 a"
    by blast
  from all show "r = Inl e \<Longrightarrow> ?goal4 e"
    by blast
qed

lemma map_of_filter_other:
  "c0 \<noteq> c \<Longrightarrow> map_of (filter (\<lambda>e. fst e \<noteq> c) xs) c0 = map_of xs c0"
  by (induction xs) auto

lemma map_of_take_None:
  assumes "map_of xs c0 = None"
  shows "map_of (take n xs) c0 = None"
proof -
  from assms have "c0 \<notin> fst ` set xs"
    by (simp add: map_of_eq_None_iff)
  then have "c0 \<notin> fst ` set (take n xs)"
    by (auto dest: in_set_takeD)
  then show ?thesis
    by (simp add: map_of_eq_None_iff)
qed

lemma predict_method_cache:
  assumes "predict_method predictors c s = (r, s')"
  shows "cache s' = cache s
         \<or> (\<exists>a. r = Inr a \<and> map_of (cache s) c = Some a
                \<and> cache s' = (c, a) # filter (\<lambda>e. fst e \<noteq> c) (cache s))
         \<or> (\<exists>a. r = Inr a \<and> map_of (cache s) c = None
                \<and> cache s' = (c, a) # take 127 (cache s))"
  using assms
  by (auto simp: predict_method_def take_maxsize_Cons
      split: option.splits sum.splits prod.splits)

lemma predict_method_other_keys:
  assumes "predict_method predictors c s = (r, s')" and "c0 \<noteq> c"
  shows "map_of (cache s) c0 = None \<Longrightarrow> map_of (cache s') c0 = None"
    and "length (cache s) < maxsize \<Longrightarrow> map_of (cache s') c0 = map_of (cache s) c0"
proof -
  note k = predict_method_cache [OF assms(1)]
  show "map_of (cache s') c0 = None" if "map_of (cache s) c0 = None"
    using k assms(2) that map_of_take_None [OF that, of 127]
    by (auto simp: map_of_filter_other)
  show "map_of (cache s') c0 = map_of (cache s) c0" if "length (cache s) < maxsize"
    using k assms(2) that by (auto simp: map_of_filter_other maxsize_def)
qed

subsection \<open>The example calls, evaluated\<close>

lemmas method_ex_defs = ex_tm_kw_def ex_predictors_def ex_call_keyword_def
  ex_call_positional_def ex_state0_def ex_state1_def

lemma ex_bind_call:
  "bind_call ex_call_keyword = Inr (5, None, [])"
  "bind_call ex_call_positional = Inr (5, None, [])"
  by (simp_all add: bind_call_def ex_call_keyword_def ex_call_positional_def)

lemma ex_predict_body:
  "predict_body ex_tm_kw ex_control_h 5 None [] (ex_heap, out)
     = (Inr 40, ex_heap_after, out @ [InformationState [[1], [0]] [[1, 0], [0, 1]] None])"
  by (simp add: heap_defs ex_heap_after_def ex_heap_def ex_control_h_def ex_tm_kw_def
      predict_over_interval_def ndim_def np_defs Let_def eval_nat_numeral)

lemma ex_first_call:
  "predict_method ex_predictors ex_call_keyword ex_state0 = (Inr 40, ex_state1)"
  by (simp add: predict_method_def ex_bind_call ex_predict_body ex_state0_def ex_state1_def
      ex_predictors_def maxsize_def)

lemma ex_repeated_call:
  "predict_method ex_predictors ex_call_keyword ex_state1 = (Inr 40, ex_state1)"
  by (simp add: predict_method_def ex_state1_def)

lemma ex_predict_body_again:
  "fst (predict_body ex_tm_kw ex_control_h 5 None [] (ex_heap_after, out)) = Inr 75
   \<and> length (fst (snd (predict_body ex_tm_kw ex_control_h 5 None [] (ex_heap_after, out))))
       = 76
   \<and> snd (snd (predict_body ex_tm_kw ex_control_h 5 None [] (ex_heap_after, out)))
       = out @ [InformationState [[1], [0]] [[1, 0], [0, 1]] None]"
  by (simp add: heap_defs ex_heap_after_def ex_heap_def ex_control_h_def ex_tm_kw_def
      predict_over_interval_def ndim_def np_defs Let_def eval_nat_numeral)

section \<open>What \<open>predict\<close> leaves untouched and what it returns\<close>

text \<open>
  Claim C5, as the specification states it, fails for the decorated method: a call is
  not always answered by a newly constructed object. The first call makes the object at
  address 40; the same call repeated returns that object again, which was in the store
  before the second call began.
\<close>

theorem repeated_call_returns_earlier_object:
  "predict_method ex_predictors ex_call_keyword ex_state0 = (Inr 40, ex_state1)
   \<and> predict_method ex_predictors ex_call_keyword ex_state1 = (Inr 40, ex_state1)
   \<and> 40 < length (store ex_state1)"
  by (simp add: ex_first_call ex_repeated_call) (simp add: ex_state1_def ex_heap_after_def
      ex_heap_def)

text \<open>
  Claim C5, amended. Every call of \<open>predict\<close> whose arguments fit the signature
  leaves every cell of the store as it was:
  the prior object, its vector and its matrix, and the arrays of the control model (the
  transition model is only asked for its matrices). What it returns is an object of
  class \<open>InformationStatePrediction\<close> whose timestamp is the one passed to \<open>predict\<close>
  and whose vector and matrix are not buffers of the prior. When the call is not answered
  from the cache the object and its buffers are made by the call; when it is, the object
  is the one an earlier call with the same key made and stored. The condition \<open>cache_ok\<close>
  on the entries holds for the empty cache and is kept by every call.
\<close>

theorem predict_method_frame:
  assumes "cache_ok predictors s"
    and "bind_call c = Inr (p, ts, kw)"
    and "valid_est (store s) p"
    and "valid_control (store s) (snd (predictors (self_id c)))"
    and "predict_method predictors c s = (r, s')"
  shows "take (length (store s)) (store s') = store s
         \<and> store s' ! p = store s ! p
         \<and> store s' ! buffer (vector_ref (store s ! p))
             = store s ! buffer (vector_ref (store s ! p))
         \<and> store s' ! buffer (matrix_ref (store s ! p))
             = store s ! buffer (matrix_ref (store s ! p))
         \<and> control_model_value (store s') (snd (predictors (self_id c)))
             = control_model_value (store s) (snd (predictors (self_id c)))
         \<and> cache_ok predictors s'
         \<and> (r = Inr a \<longrightarrow>
              a < length (store s') \<and> a \<noteq> p
              \<and> cls (store s' ! a) = CInformationStatePrediction
              \<and> stamp (store s' ! a) = ts
              \<and> buffer (vector_ref (store s' ! a)) \<noteq> buffer (vector_ref (store s ! p))
              \<and> buffer (vector_ref (store s' ! a)) \<noteq> buffer (matrix_ref (store s ! p))
              \<and> buffer (matrix_ref (store s' ! a)) \<noteq> buffer (vector_ref (store s ! p))
              \<and> buffer (matrix_ref (store s' ! a)) \<noteq> buffer (matrix_ref (store s ! p))
              \<and> (if map_of (cache s) c = None
                  then length (store s) \<le> a
                     \<and> length (store s) \<le> buffer (vector_ref (store s' ! a))
                     \<and> length (store s) \<le> buffer (matrix_ref (store s' ! a))
                  else map_of (cache s) c = Some a \<and> a < length (store s)))"
proof -
  note step = predict_method_step [OF assms]
  note e = step(1)
  note v = valid_est_cell [OF assms(3)]
  have old: "take (length (store s)) (store s') = store s"
    using e by (simp add: extends_def)
  have cells: "store s' ! p = store s ! p"
    "store s' ! buffer (vector_ref (store s ! p)) = store s ! buffer (vector_ref (store s ! p))"
    "store s' ! buffer (matrix_ref (store s ! p)) = store s ! buffer (matrix_ref (store s ! p))"
    using v by (simp_all add: extends_nth [OF e])
  note cm = valid_control_extends(2) [OF e assms(4)]
  have new: "r = Inr a \<longrightarrow>
              a < length (store s') \<and> a \<noteq> p
              \<and> cls (store s' ! a) = CInformationStatePrediction
              \<and> stamp (store s' ! a) = ts
              \<and> buffer (vector_ref (store s' ! a)) \<noteq> buffer (vector_ref (store s ! p))
              \<and> buffer (vector_ref (store s' ! a)) \<noteq> buffer (matrix_ref (store s ! p))
              \<and> buffer (matrix_ref (store s' ! a)) \<noteq> buffer (vector_ref (store s ! p))
              \<and> buffer (matrix_ref (store s' ! a)) \<noteq> buffer (matrix_ref (store s ! p))
              \<and> (if map_of (cache s) c = None
                  then length (store s) \<le> a
                     \<and> length (store s) \<le> buffer (vector_ref (store s' ! a))
                     \<and> length (store s) \<le> buffer (matrix_ref (store s' ! a))
                  else map_of (cache s) c = Some a \<and> a < length (store s))"
  proof
    assume r: "r = Inr a"
    note f = step(3) [OF r]
    from f assms(2) have en: "valid_est (store s') a" "a \<noteq> p"
      "cls (store s' ! a) = CInformationStatePrediction" "stamp (store s' ! a) = ts"
      "no_shared_buffer (store s' ! a) (store s' ! p)"
      by (simp_all add: entry_ok_def)
    from f have origin: "(map_of (cache s) c = Some a \<and> a < length (store s))
                         \<or> (map_of (cache s) c = None \<and> length (store s) \<le> a)"
      by blast
    have fresh: "length (store s) \<le> buffer (vector_ref (store s' ! a))
                 \<and> length (store s) \<le> buffer (matrix_ref (store s' ! a))"
      if miss: "map_of (cache s) c = None"
    proof -
      obtain r0 h out
        where body: "predict_body (fst (predictors (self_id c)))
                       (snd (predictors (self_id c))) p ts kw (store s, stdout s)
                     = (r0, h, out)"
        by (cases "predict_body (fst (predictors (self_id c)))
                     (snd (predictors (self_id c))) p ts kw (store s, stdout s)") auto
      from assms(5) predict_method_miss [where predictors = predictors, OF miss assms(2) body]
      have "r = r0" and "store s' = h"
        by (auto split: sum.splits)
      with r predict_body_run(1) [OF body]
      have "predict_h (fst (predictors (self_id c))) (snd (predictors (self_id c)))
              p ts kw (store s) = (Inr a, store s')"
        by simp
      from fresh_estimate_predict_h(2) [OF this refl] show ?thesis
        by blast
    qed
    from en(5) cells(1) have ns: "no_shared_buffer (store s' ! a) (store s ! p)"
      by simp
    from valid_est_cell(1) [OF en(1)] en(2-4) ns origin fresh
    show "a < length (store s') \<and> a \<noteq> p
              \<and> cls (store s' ! a) = CInformationStatePrediction
              \<and> stamp (store s' ! a) = ts
              \<and> buffer (vector_ref (store s' ! a)) \<noteq> buffer (vector_ref (store s ! p))
              \<and> buffer (vector_ref (store s' ! a)) \<noteq> buffer (matrix_ref (store s ! p))
              \<and> buffer (matrix_ref (store s' ! a)) \<noteq> buffer (vector_ref (store s ! p))
              \<and> buffer (matrix_ref (store s' ! a)) \<noteq> buffer (matrix_ref (store s ! p))
              \<and> (if map_of (cache s) c = None
                  then length (store s) \<le> a
                     \<and> length (store s) \<le> buffer (vector_ref (store s' ! a))
                     \<and> length (store s) \<le> buffer (matrix_ref (store s' ! a))
                  else map_of (cache s) c = Some a \<and> a < length (store s))"
      by (auto simp: no_shared_buffer_def)
  qed
  from old cells cm step(2) new show ?thesis
    by (intro conjI)
qed

lemma ex_hypotheses:
  "cache_ok ex_predictors ex_state0"
  "valid_est (store ex_state0) 5"
  "valid_control (store ex_state0) (snd (ex_predictors (self_id ex_call_keyword)))"
  by (simp_all add: cache_ok_def valid_est_def valid_control_def ex_state0_def ex_heap_def
      ex_predictors_def ex_control_h_def eval_nat_numeral)

theorem predict_method_frame_witness:
  "cache_ok ex_predictors ex_state0
   \<and> bind_call ex_call_keyword = Inr (5, None, [])
   \<and> valid_est (store ex_state0) 5
   \<and> valid_control (store ex_state0) (snd (ex_predictors (self_id ex_call_keyword)))
   \<and> predict_method ex_predictors ex_call_keyword ex_state0 = (Inr 40, ex_state1)
   \<and> take (length (store ex_state0)) (store ex_state1) = store ex_state0
   \<and> store ex_state1 ! 5 = store ex_state0 ! 5
   \<and> cache_ok ex_predictors ex_state1
   \<and> cls (store ex_state1 ! 40) = CInformationStatePrediction
   \<and> stamp (store ex_state1 ! 40) = None
   \<and> buffer (vector_ref (store ex_state1 ! 40)) \<noteq> buffer (vector_ref (store ex_state0 ! 5))
   \<and> buffer (matrix_ref (store ex_state1 ! 40)) \<noteq> buffer (matrix_ref (store ex_state0 ! 5))
   \<and> length (store ex_state0) \<le> 40"
proof -
  have m: "map_of (cache ex_state0) ex_call_keyword = None"
    by (simp add: ex_state0_def)
  from predict_method_frame [OF ex_hypotheses(1) ex_bind_call(1) ex_hypotheses(2,3)
      ex_first_call, of 40] m ex_hypotheses ex_bind_call(1) ex_first_call
  show ?thesis
    by simp
qed

section \<open>Memoization\<close>

text \<open>
  Claim C6, as the specification states it, fails: the key is made from the call as
  written, not from the values of \<open>(prior, timestamp, kwargs)\<close>. After
  \<open>predict(prior, timestamp=None)\<close> the call \<open>predict(prior, None)\<close> on the same
  predictor binds the same prior, timestamp and \<open>kwargs\<close>, and yet runs the body again:
  the prior is printed a second time and a second object, at address 75, is returned.
\<close>

theorem same_arguments_written_differently_recomputed:
  "self_id ex_call_positional = self_id ex_call_keyword
   \<and> bind_call ex_call_keyword = Inr (5, None, [])
   \<and> bind_call ex_call_positional = Inr (5, None, [])
   \<and> predict_method ex_predictors ex_call_keyword ex_state0 = (Inr 40, ex_state1)
   \<and> fst (predict_method ex_predictors ex_call_positional ex_state1) = Inr 75
   \<and> length (store ex_state1) = 41
   \<and> length (store (snd (predict_method ex_predictors ex_call_positional ex_state1))) = 76
   \<and> stdout ex_state1 = [InformationState [[1], [0]] [[1, 0], [0, 1]] None]
   \<and> stdout (snd (predict_method ex_predictors ex_call_positional ex_state1))
       = [InformationState [[1], [0]] [[1, 0], [0, 1]] None,
          InformationState [[1], [0]] [[1, 0], [0, 1]] None]"
proof -
  have a: "self_id ex_call_positional = self_id ex_call_keyword"
    by (simp add: ex_call_positional_def ex_call_keyword_def)
  have miss: "map_of (cache ex_state1) ex_call_positional = None"
    by (simp add: ex_state1_def ex_call_positional_def ex_call_keyword_def)
  obtain r h out
    where body: "predict_body ex_tm_kw ex_control_h 5 None []
                   (ex_heap_after, [InformationState [[1], [0]] [[1, 0], [0, 1]] None])
                 = (r, h, out)"
    by (cases "predict_body ex_tm_kw ex_control_h 5 None ([] :: (string \<times> unit) list)
                 (ex_heap_after, [InformationState [[1], [0]] [[1, 0], [0, 1]] None])") auto
  from ex_predict_body_again [of "[InformationState [[1], [0]] [[1, 0], [0, 1]] None]"] body
  have r: "r = Inr 75" and h: "length h = 76"
    and out: "out = [InformationState [[1], [0]] [[1, 0], [0, 1]] None,
                     InformationState [[1], [0]] [[1, 0], [0, 1]] None]"
    by simp_all
  have body': "predict_body (fst (ex_predictors (self_id ex_call_positional)))
                 (snd (ex_predictors (self_id ex_call_positional))) 5 None []
                 (store ex_state1, stdout ex_state1) = (r, h, out)"
    using body by (simp add: ex_predictors_def ex_state1_def)
  note run = predict_method_miss [where predictors = ex_predictors,
      OF miss ex_bind_call(2) body']
  have b: "fst (predict_method ex_predictors ex_call_positional ex_state1) = Inr 75"
    "length (store (snd (predict_method ex_predictors ex_call_positional ex_state1))) = 76"
    "stdout (snd (predict_method ex_predictors ex_call_positional ex_state1))
       = [InformationState [[1], [0]] [[1, 0], [0, 1]] None,
          InformationState [[1], [0]] [[1, 0], [0, 1]] None]"
    by (simp_all add: run r h out)
  have c: "length (store ex_state1) = 41"
    "stdout ex_state1 = [InformationState [[1], [0]] [[1, 0], [0, 1]] None]"
    by (simp_all add: ex_state1_def ex_heap_after_def ex_heap_def)
  from a ex_bind_call ex_first_call b c show ?thesis
    by (intro conjI)
qed

text \<open>
  Claim C6, amended. The outcome of every call of \<open>predict\<close> whose arguments fit the
  signature is that of the body for the prior, the timestamp and the \<open>kwargs\<close> the call
  binds, whether the body is run or the result is taken from the cache: the estimate
  that \<open>predict\<close> over values returns, or the exception it raises. A call that
  returned, repeated at once by the same predictor with the same arguments written in
  the same way, returns the very object returned before and changes nothing; so does
  any call whose key is in the cache, without running the body. A call that raised
  stores nothing, so that the same call is computed again. A call makes no entry for
  another key, so that the same arguments written in another way, positional for
  keyword or omitted for default, are computed on their own; and it drops no entry of
  another key unless the cache is full.
\<close>

theorem predict_method_memoized:
  assumes "cache_ok predictors s"
    and "bind_call c = Inr (p, ts, kw)"
    and "valid_est (store s) p"
    and "valid_control (store s) (snd (predictors (self_id c)))"
    and "predict_method predictors c s = (r, s')"
  shows "(case r of
            Inr a \<Rightarrow>
              predict (predictor_value (store s) (predictors (self_id c)))
                (est_value (store s) (store s ! p)) ts kw
              = Inr (est_value (store s') (store s' ! a))
          | Inl e \<Rightarrow>
              predict (predictor_value (store s) (predictors (self_id c)))
                (est_value (store s) (store s ! p)) ts kw
              = Inl e)
         \<and> cache_ok predictors s'
         \<and> (r = Inr a \<longrightarrow> predict_method predictors c s' = (Inr a, s'))
         \<and> (map_of (cache s) c = Some b \<longrightarrow>
              r = Inr b \<and> store s' = store s \<and> stdout s' = stdout s)
         \<and> (r = Inl e \<longrightarrow> cache s' = cache s \<and> map_of (cache s') c = None)
         \<and> (c0 \<noteq> c \<and> map_of (cache s) c0 = None \<longrightarrow> map_of (cache s') c0 = None)
         \<and> (c0 \<noteq> c \<and> length (cache s) < maxsize \<longrightarrow>
              map_of (cache s') c0 = map_of (cache s) c0)"
proof -
  note step = predict_method_step [OF assms]
  note e = step(1)
  have pv: "predictor_value (store s') (predictors (self_id c))
              = predictor_value (store s) (predictors (self_id c))"
    by (simp add: predictor_value_def valid_control_extends(2) [OF e assms(4)])
  note pr = valid_est_extends(3) [OF e assms(3)]
  have outcome: "case r of
            Inr a \<Rightarrow>
              predict (predictor_value (store s) (predictors (self_id c)))
                (est_value (store s) (store s ! p)) ts kw
              = Inr (est_value (store s') (store s' ! a))
          | Inl e \<Rightarrow>
              predict (predictor_value (store s) (predictors (self_id c)))
                (est_value (store s) (store s ! p)) ts kw
              = Inl e"
  proof (cases r)
    case (Inl e0)
    from step(4) [OF Inl] Inl show ?thesis
      by simp
  next
    case (Inr a0)
    from step(3) [OF Inr] assms(2)
    have "predict (predictor_value (store s') (predictors (self_id c)))
            (est_value (store s') (store s' ! p)) ts kw
          = Inr (est_value (store s') (store s' ! a0))"
      by (simp add: entry_ok_def)
    with Inr pv pr show ?thesis
      by simp
  qed
  have again: "r = Inr a \<longrightarrow> predict_method predictors c s' = (Inr a, s')"
  proof
    assume r: "r = Inr a"
    note f = step(3) [OF r]
    from f have fl: "(c, a) # filter (\<lambda>e. fst e \<noteq> c) (cache s') = cache s'"
      by blast
    then have "map_of (cache s') c = Some a"
      by (metis fst_conv map_of_Cons_code(2) snd_conv)
    from predict_method_hit [where predictors = predictors, OF this] fl
    show "predict_method predictors c s' = (Inr a, s')"
      by simp
  qed
  have hit: "map_of (cache s) c = Some b \<longrightarrow>
               r = Inr b \<and> store s' = store s \<and> stdout s' = stdout s"
  proof
    assume "map_of (cache s) c = Some b"
    from predict_method_hit [where predictors = predictors, OF this] assms(5)
    show "r = Inr b \<and> store s' = store s \<and> stdout s' = stdout s"
      by auto
  qed
  have raised: "r = Inl e \<longrightarrow> cache s' = cache s \<and> map_of (cache s') c = None"
    using step(4) [of e] by auto
  have other: "c0 \<noteq> c \<and> map_of (cache s) c0 = None \<longrightarrow> map_of (cache s') c0 = None"
    using predict_method_other_keys(1) [OF assms(5)] by blast
  have kept: "c0 \<noteq> c \<and> length (cache s) < maxsize \<longrightarrow>
                map_of (cache s') c0 = map_of (cache s) c0"
    using predict_method_other_keys(2) [OF assms(5)] by blast
  from outcome step(2) again hit raised other kept show ?thesis
    by (intro conjI)
qed

theorem predict_method_memoized_witness:
  "cache_ok ex_predictors ex_state0
   \<and> bind_call ex_call_keyword = Inr (5, None, [])
   \<and> valid_est (store ex_state0) 5
   \<and> valid_control (store ex_state0) (snd (ex_predictors (self_id ex_call_keyword)))
   \<and> predict_method ex_predictors ex_call_keyword ex_state0 = (Inr 40, ex_state1)
   \<and> predict (predictor_value (store ex_state0) (ex_predictors (self_id ex_call_keyword)))
        (est_value (store ex_state0) (store ex_state0 ! 5)) None []
      = Inr (est_value (store ex_state1) (store ex_state1 ! 40))
   \<and> cache_ok ex_predictors ex_state1
   \<and> predict_method ex_predictors ex_call_keyword ex_state1 = (Inr 40, ex_state1)
   \<and> ex_call_positional \<noteq> ex_call_keyword
   \<and> map_of (cache ex_state0) ex_call_positional = None
   \<and> map_of (cache ex_state1) ex_call_positional = None"
proof -
  have k: "ex_call_positional \<noteq> ex_call_keyword"
    "map_of (cache ex_state0) ex_call_positional = None"
    by (simp_all add: ex_call_positional_def ex_call_keyword_def ex_state0_def)
  from predict_method_memoized [OF ex_hypotheses(1) ex_bind_call(1) ex_hypotheses(2,3)
      ex_first_call, of 40 _ _ ex_call_positional] k ex_hypotheses ex_bind_call(1)
    ex_first_call
  show ?thesis
    by simp
qed

end
